theory Spec2Isabelle
  imports Complex_Main "HOL-Library.Multiset" "HOL-Library.Char_ord" "HOL-Library.List_Lexorder"
begin

section \<open>The analytics aggregation of \<open>src/index.js\<close>\<close>

text \<open>
  The development embeds \<open>processAnalytics\<close> (the second, effective declaration of that
  name in \<open>src/index.js\<close>, the one that also tracks unique users) and proves properties
  of the report it returns.

  Conventions of the embedding:
  \<^item> a property that may be absent from a JSON object is an \<open>option\<close>; \<open>None\<close> is
    JavaScript's \<open>undefined\<close> or \<open>null\<close>;
  \<^item> a string is the list of its code units, each below 256 (\<open>char\<close>);
  \<^item> the counts and capacities of the input and their sums are the integers they hold
    (\<open>int\<close>; a JavaScript number holds every integer up to \<open>2^53\<close> exactly). Every other
    number is an IEEE 754 binary64 value, represented by the rational it denotes: a
    quotient, product or sum of such numbers is the exact result rounded to the nearest
    binary64 value, ties to even (\<open>rnd\<close>). Results beyond the largest binary64 value
    (\<open>Infinity\<close>) are outside the model;
  \<^item> a user identifier is a number or a string (\<open>jsid\<close>), compared as \<open>Set\<close> compares;
  \<^item> the object literals used as dictionaries (\<open>byType\<close>, \<open>byHour\<close>, \<open>byInstructor\<close>,
    \<open>byDate\<close>, \<open>uniqueUsersByType\<close>) are association lists of their own properties in
    insertion order; reading \<open>obj[k]\<close> also finds the members that every object inherits
    from \<open>Object.prototype\<close> (\<open>lookup\<close>). The engine enumerates keys that are array
    indices before the others; this can only change the order of \<open>byType\<close> and
    \<open>byInstructor\<close> entries of equal attendance rate, on which no theorem below depends;
  \<^item> a \<open>Set\<close> is a duplicate-free list in insertion order;
  \<^item> \<open>Array.prototype.sort\<close> with a comparator is the stable insertion sort \<open>sort_key\<close>;
  \<^item> a thrown exception is the value \<open>Inl TypeError\<close>;
  \<^item> \<open>new Date(str)\<close> followed by \<open>getDay()\<close> and \<open>getHours()\<close> is a parameter
    \<open>Date :: string \<Rightarrow> (nat \<times> nat) option\<close> of the embedding (\<open>None\<close> is an invalid
    date, whose day and hour are \<open>NaN\<close>), because the parse of a string is left to the
    engine and its time zone.
\<close>

subsection \<open>Session objects\<close>

datatype jsid = IdNum int | IdStr string

record user =
  id' :: "jsid option"

record booking =
  user_id :: "jsid option"
  userId :: "jsid option"
  user :: "user option"

record staff =
  firstname :: "string option"
  lastname :: "string option"
  imagekey :: "string option"

record workoutType =
  name :: "string option"
  color :: "string option"

record workout =
  workoutType :: "workoutType option"
  space :: "int option"
  numBooked :: "int option"
  startTime :: "string option"
  staffs :: "staff list option"
  bookings :: "booking list option"

subsection \<open>Accumulators and report\<close>

datatype error = TypeError

text \<open>The value of \<open>c ? x.toFixed(1) : 0\<close>: the number \<open>0\<close> or a text.\<close>

datatype num_or_text = Num0 | Text string

record bucket =
  classes :: nat
  totalBooked :: int
  totalCapacity :: int

record typeBucket = bucket +
  name :: string
  color :: string
  bookings :: "rat list"

record typeStat = typeBucket +
  avgAttendance :: num_or_text
  attendanceRate :: num_or_text
  avgBookingRate :: num_or_text
  uniqueParticipants :: nat

record instructorBucket = bucket +
  name :: string
  imagekey :: "string option"

record instructorStat = instructorBucket +
  avgAttendance :: num_or_text
  attendanceRate :: num_or_text

record dayEntry =
  booked :: int
  capacity :: int
  rate :: rat

record dayStat =
  day :: string
  dayIndex :: nat
  classes :: nat
  avgAttendance :: num_or_text
  attendanceRate :: num_or_text

record hourStat =
  hour :: nat
  label :: string
  classes :: nat
  avgAttendance :: num_or_text
  attendanceRate :: num_or_text

record trendEntry = bucket +
  date :: string
  attendanceRate :: num_or_text

record summary =
  totalClasses :: nat
  totalBooked :: int
  totalCapacity :: int
  overallAttendanceRate :: num_or_text
  avgPerClass :: num_or_text
  fullyBookedClasses :: nat
  fullyBookedRate :: num_or_text
  emptyClasses :: nat
  emptyRate :: num_or_text
  uniqueParticipants :: nat

record report =
  summary :: summary
  byType :: "typeStat list"
  byDay :: "dayStat list"
  byHour :: "hourStat list"
  byInstructor :: "instructorStat list"
  dailyTrend :: "trendEntry list"

text \<open>The local variables of \<open>processAnalytics\<close> that the \<open>forEach\<close> body mutates.\<close>

record state =
  byType :: "(string \<times> typeBucket) list"
  byDayOfWeek :: "dayEntry list list"
  byHour :: "(nat \<times> bucket) list"
  byInstructor :: "(string \<times> instructorBucket) list"
  byDate :: "(string \<times> bucket) list"
  totalClasses :: nat
  totalBooked :: int
  totalCapacity :: int
  fullyBookedClasses :: nat
  emptyClasses :: nat
  allUniqueUsers :: "jsid list"
  uniqueUsersByType :: "(string \<times> jsid list) list"

subsection \<open>JavaScript operators and library functions\<close>

text \<open>\<open>a || d\<close> on a string: the empty string and \<open>undefined\<close> are falsy.\<close>

definition str_or :: "string option \<Rightarrow> string \<Rightarrow> string" where
  "str_or a d = (case a of None \<Rightarrow> d | Some s \<Rightarrow> if s = [] then d else s)"

text \<open>\<open>a || 0\<close> on a number: \<open>0\<close> and \<open>undefined\<close> are falsy.\<close>

definition num_or0 :: "int option \<Rightarrow> int" where
  "num_or0 a = (case a of None \<Rightarrow> 0 | Some n \<Rightarrow> if n = 0 then 0 else n)"

definition truthy :: "jsid \<Rightarrow> bool" where
  "truthy v = (case v of IdNum n \<Rightarrow> n \<noteq> 0 | IdStr s \<Rightarrow> s \<noteq> [])"

text \<open>\<open>a || b\<close> on identifiers.\<close>

definition id_or :: "jsid option \<Rightarrow> jsid option \<Rightarrow> jsid option" where
  "id_or a b = (case a of None \<Rightarrow> b | Some v \<Rightarrow> if truthy v then Some v else b)"

text \<open>
  \<open>String.prototype.trim\<close> removes white space and line terminators at both ends; among
  the code units below 256 these are tab, line feed, vertical tab, form feed, carriage
  return, space and the no-break space \<open>U+00A0\<close>.
\<close>

definition is_ws :: "char \<Rightarrow> bool" where
  "is_ws c =
     (c \<in> set [CHR 0x09, CHR 0x0A, CHR 0x0B, CHR 0x0C, CHR 0x0D, CHR '' '', CHR 0xA0])"

definition trim :: "string \<Rightarrow> string" where
  "trim s = rev (dropWhile is_ws (rev (dropWhile is_ws s)))"

text \<open>Decimal numerals (the conversion of a non-negative integer to a string).\<close>

definition digit :: "nat \<Rightarrow> char" where
  "digit d = ''0123456789'' ! (d mod 10)"

fun show_nat :: "nat \<Rightarrow> string" where
  "show_nat n = (if n < 10 then [digit n] else show_nat (n div 10) @ [digit (n mod 10)])"

declare show_nat.simps [simp del]

text \<open>
  Binary64 arithmetic. A binary64 value other than zero is \<open>m * 2^(e - 52)\<close> with an
  integer \<open>m\<close> of at most 53 bits and \<open>- 1022 \<le> e\<close>. \<open>rnd x\<close> is the binary64 value
  nearest to the rational \<open>x\<close>, the one with the even \<open>m\<close> of two nearest: \<open>expo\<close> finds
  the exponent \<open>e\<close> with \<open>2^e \<le> \<bar>x\<bar> < 2^(e + 1)\<close> (its first argument bounds the search
  and covers the exponents of binary64; below \<open>- 1022\<close> the values are subnormal and
  keep the spacing \<open>2^(- 1074)\<close>), and \<open>half_even\<close> rounds \<open>\<bar>x\<bar> / 2^(e - 52)\<close> to an
  integer. The operators \<open>/\<close>, \<open>*\<close> and \<open>+\<close> of JavaScript return the rounded exact result.
\<close>

definition pow2 :: "int \<Rightarrow> rat" where
  "pow2 k = (if 0 \<le> k then 2 ^ nat k else 1 / 2 ^ nat (- k))"

definition half_even :: "rat \<Rightarrow> int" where
  "half_even x =
     (let f = \<lfloor>x\<rfloor>; d = x - of_int f
      in if d < 1 / 2 then f else if 1 / 2 < d then f + 1 else if even f then f else f + 1)"

fun expo :: "nat \<Rightarrow> rat \<Rightarrow> int" where
  "expo n x =
     (if n = 0 then 0
      else if x < 1 then expo (n - 1) (x * 2) - 1
      else if 2 \<le> x then expo (n - 1) (x / 2) + 1
      else 0)"

declare expo.simps [simp del]

definition rnd :: "rat \<Rightarrow> rat" where
  "rnd x =
     (if x = 0 then 0
      else let e = max (expo 1100 \<bar>x\<bar>) (- 1022); u = pow2 (e - 52)
           in sgn x * of_int (half_even (\<bar>x\<bar> / u)) * u)"

definition fdiv :: "rat \<Rightarrow> rat \<Rightarrow> rat" where
  "fdiv x y = rnd (x / y)"

definition fmul :: "rat \<Rightarrow> rat \<Rightarrow> rat" where
  "fmul x y = rnd (x * y)"

definition fadd :: "rat \<Rightarrow> rat \<Rightarrow> rat" where
  "fadd x y = rnd (x + y)"

text \<open>
  \<open>x.toFixed(1)\<close> of a binary64 value \<open>x\<close>: the sign, then the integer \<open>n\<close> for which
  \<open>n / 10\<close> is closest to the exact value of \<open>x\<close> (the larger one of two), written with
  one digit after the point (for \<open>\<bar>x\<bar>\<close> below \<open>10^21\<close>).
\<close>

definition toFixed1 :: "rat \<Rightarrow> string" where
  "toFixed1 x =
     (let a = \<bar>x\<bar>; n = nat \<lfloor>a * 10 + 1 / 2\<rfloor>
      in (if x < 0 then ''-'' else []) @ show_nat (n div 10) @ ''.'' @ [digit (n mod 10)])"

text \<open>
  \<open>parseFloat\<close> on a decimal literal (optional sign, digits, optional fraction): the
  binary64 value nearest to the number that the literal denotes (\<open>decimal\<close>).
\<close>

definition is_digit :: "char \<Rightarrow> bool" where
  "is_digit c = (c \<in> set ''0123456789'')"

definition digit_val :: "char \<Rightarrow> nat" where
  "digit_val c = of_char c - 48"

definition digits_val :: "string \<Rightarrow> nat" where
  "digits_val s = foldl (\<lambda>v c. v * 10 + digit_val c) 0 s"

definition parseDec :: "string \<Rightarrow> rat" where
  "parseDec s =
     (let ip = takeWhile is_digit s; r = dropWhile is_digit s;
          fp = (case r of c # u \<Rightarrow> if c = CHR ''.'' then takeWhile is_digit u else [] | [] \<Rightarrow> [])
      in of_nat (digits_val ip) + of_nat (digits_val fp) / 10 ^ length fp)"

definition decimal :: "string \<Rightarrow> rat" where
  "decimal s =
     (case s of c # t \<Rightarrow> if c = CHR ''-'' then - parseDec t else parseDec s | [] \<Rightarrow> 0)"

definition parseFloat :: "num_or_text \<Rightarrow> rat" where
  "parseFloat v = (case v of Num0 \<Rightarrow> 0 | Text s \<Rightarrow> rnd (decimal s))"

text \<open>
  \<open>n > 0 ? (a / n * 100).toFixed(1) : 0\<close> and \<open>n > 0 ? (a / n).toFixed(1) : 0\<close>; the
  product is taken of the rounded quotient.
\<close>

definition pct :: "int \<Rightarrow> int \<Rightarrow> num_or_text" where
  "pct a n = (if n > 0 then Text (toFixed1 (fmul (fdiv (of_int a) (of_int n)) 100)) else Num0)"

definition avg :: "int \<Rightarrow> int \<Rightarrow> num_or_text" where
  "avg a n = (if n > 0 then Text (toFixed1 (fdiv (of_int a) (of_int n))) else Num0)"

text \<open>\<open>space > 0 ? (booked / space * 100) : 0\<close>, a number.\<close>

definition ratio :: "int \<Rightarrow> int \<Rightarrow> rat" where
  "ratio b sp = (if sp > 0 then fmul (fdiv (of_int b) (of_int sp)) 100 else 0)"

text \<open>
  Dictionaries. \<open>obj[k] = v\<close> replaces the value of an own key in place and appends a
  new key at the end; \<open>obj[k].f(...)\<close> mutates the value of an own key (\<open>modify\<close>; it
  leaves the list as it is when the key is not an own key).
\<close>

fun assign :: "'k \<Rightarrow> 'v \<Rightarrow> ('k \<times> 'v) list \<Rightarrow> ('k \<times> 'v) list" where
  "assign k v [] = [(k, v)]"
| "assign k v ((k', v') # kvs) =
     (if k = k' then (k', v) # kvs else (k', v') # assign k v kvs)"

fun modify :: "'k \<Rightarrow> ('v \<Rightarrow> 'v) \<Rightarrow> ('k \<times> 'v) list \<Rightarrow> ('k \<times> 'v) list" where
  "modify k f [] = []"
| "modify k f ((k', v) # kvs) =
     (if k = k' then (k', f v) # kvs else (k', v) # modify k f kvs)"

text \<open>
  Reading \<open>obj[k]\<close> for a string \<open>k\<close> gives the own property \<open>k\<close> when there is one,
  else the member \<open>k\<close> of \<open>Object.prototype\<close> when \<open>k\<close> names one (a function, or the
  prototype object itself for \<open>__proto__\<close>), else \<open>undefined\<close>.
\<close>

definition proto_key :: "string \<Rightarrow> bool" where
  "proto_key k =
     (k \<in> set [''constructor'', ''hasOwnProperty'', ''isPrototypeOf'', ''propertyIsEnumerable'',
                ''toLocaleString'', ''toString'', ''valueOf'', ''__proto__'',
                ''__defineGetter__'', ''__defineSetter__'', ''__lookupGetter__'',
                ''__lookupSetter__''])"

datatype 'v slot = Undefined | Own 'v | Inherited

definition lookup :: "(string \<times> 'v) list \<Rightarrow> string \<Rightarrow> 'v slot" where
  "lookup kvs k =
     (case map_of kvs k of
        Some v \<Rightarrow> Own v
      | None \<Rightarrow> if proto_key k then Inherited else Undefined)"

text \<open>
  \<open>if (!obj[k]) obj[k] = v0\<close> for a string key: the values stored are objects and the
  inherited members are functions or objects, all truthy, so the entry is created only
  when \<open>obj[k]\<close> is \<open>undefined\<close>.
\<close>

definition ensure_named :: "string \<Rightarrow> 'v \<Rightarrow> (string \<times> 'v) list \<Rightarrow> (string \<times> 'v) list" where
  "ensure_named k v0 kvs = (case lookup kvs k of Undefined \<Rightarrow> assign k v0 kvs | _ \<Rightarrow> kvs)"

text \<open>
  The same for a key that is a number (the hour in \<open>byHour\<close>): no number names a member
  of \<open>Object.prototype\<close>.
\<close>

definition ensure :: "'k \<Rightarrow> 'v \<Rightarrow> ('k \<times> 'v) list \<Rightarrow> ('k \<times> 'v) list" where
  "ensure k v0 kvs = (if map_of kvs k = None then assign k v0 kvs else kvs)"

text \<open>\<open>Set.prototype.add\<close>.\<close>

definition set_add :: "'a \<Rightarrow> 'a list \<Rightarrow> 'a list" where
  "set_add x xs = (if x \<in> set xs then xs else xs @ [x])"

subsection \<open>The body of the \<open>forEach\<close>\<close>

text \<open>The locals \<open>typeName\<close>, \<open>space\<close>, \<open>booked\<close> and \<open>dateStr\<close> of the body.\<close>

definition typeName :: "workout \<Rightarrow> string" where
  "typeName w =
     str_or (case workoutType w of None \<Rightarrow> None | Some t \<Rightarrow> workoutType.name t) ''Unknown''"

definition space_of :: "workout \<Rightarrow> int" where
  "space_of w = num_or0 (space w)"

definition booked_of :: "workout \<Rightarrow> int" where
  "booked_of w = num_or0 (numBooked w)"

text \<open>\<open>str.split(' ')[0]\<close>.\<close>

definition dateStr :: "string \<Rightarrow> string" where
  "dateStr str = takeWhile (\<lambda>c. c \<noteq> CHR '' '') str"

text \<open>\<open>classes++; totalBooked += booked; totalCapacity += space\<close> on a bucket.\<close>

definition add_session :: "int \<Rightarrow> int \<Rightarrow> 'a bucket_scheme \<Rightarrow> 'a bucket_scheme" where
  "add_session b sp t =
     t\<lparr>bucket.classes := bucket.classes t + 1,
       bucket.totalBooked := bucket.totalBooked t + b,
       bucket.totalCapacity := bucket.totalCapacity t + sp\<rparr>"

definition count_totals :: "int \<Rightarrow> int \<Rightarrow> state \<Rightarrow> state" where
  "count_totals b sp s =
     s\<lparr>state.totalClasses := state.totalClasses s + 1,
       state.totalBooked := state.totalBooked s + b,
       state.totalCapacity := state.totalCapacity s + sp,
       state.fullyBookedClasses :=
         (if sp > 0 \<and> b \<ge> sp then state.fullyBookedClasses s + 1
          else state.fullyBookedClasses s),
       state.emptyClasses :=
         (if b = 0 then state.emptyClasses s + 1 else state.emptyClasses s)\<rparr>"

definition new_typeBucket :: "workout \<Rightarrow> typeBucket" where
  "new_typeBucket w =
     \<lparr>bucket.classes = 0, bucket.totalBooked = 0, bucket.totalCapacity = 0,
      typeBucket.name = typeName w,
      typeBucket.color = str_or (case workoutType w of None \<Rightarrow> None | Some t \<Rightarrow> workoutType.color t)
                ''#667eea'',
      typeBucket.bookings = []\<rparr>"

text \<open>
  The \<open>byType\<close> part of the body. When \<open>byType[typeName]\<close> is an inherited member, no
  entry is created, the three updates of the counters set properties of that member, and
  \<open>byType[typeName].bookings\<close> is \<open>undefined\<close>, so that \<open>push\<close> throws.
\<close>

definition add_byType :: "workout \<Rightarrow> state \<Rightarrow> error + state" where
  "add_byType w s =
     (let s1 = (case lookup (state.byType s) (typeName w) of
                  Undefined \<Rightarrow>
                    s\<lparr>state.byType := assign (typeName w) (new_typeBucket w) (state.byType s),
                      uniqueUsersByType := assign (typeName w) [] (uniqueUsersByType s)\<rparr>
                | _ \<Rightarrow> s)
      in case lookup (state.byType s1) (typeName w) of
           Own t \<Rightarrow>
             Inr (s1\<lparr>state.byType :=
                       modify (typeName w)
                         (\<lambda>t. (add_session (booked_of w) (space_of w) t)
                                 \<lparr>typeBucket.bookings :=
                                    typeBucket.bookings t @ [ratio (booked_of w) (space_of w)]\<rparr>)
                         (state.byType s1)\<rparr>)
         | _ \<Rightarrow> Inl TypeError)"

text \<open>\<open>booking.user_id || booking.userId || booking.user?.id\<close>.\<close>

definition booking_userId :: "booking \<Rightarrow> jsid option" where
  "booking_userId b =
     id_or (id_or (user_id b) (userId b)) (case user b of None \<Rightarrow> None | Some u \<Rightarrow> id' u)"

definition add_user :: "string \<Rightarrow> state \<Rightarrow> booking \<Rightarrow> state" where
  "add_user tn s b =
     (case booking_userId b of
        None \<Rightarrow> s
      | Some v \<Rightarrow>
          if truthy v
          then s\<lparr>allUniqueUsers := set_add v (allUniqueUsers s),
                 uniqueUsersByType := modify tn (set_add v) (uniqueUsersByType s)\<rparr>
          else s)"

definition add_users :: "workout \<Rightarrow> state \<Rightarrow> state" where
  "add_users w s =
     (case workout.bookings w of
        None \<Rightarrow> s
      | Some bs \<Rightarrow> foldl (add_user (typeName w)) s bs)"

text \<open>
  \<open>byDayOfWeek[dayOfWeek].push(...)\<close>: \<open>byDayOfWeek\<close> has the keys \<open>0..6\<close> only, so for
  any other day (\<open>NaN\<close> included) the receiver is \<open>undefined\<close> and the call throws.
\<close>

definition add_byDay :: "nat option \<Rightarrow> int \<Rightarrow> int \<Rightarrow> state \<Rightarrow> error + state" where
  "add_byDay dayOfWeek b sp s =
     (case dayOfWeek of
        None \<Rightarrow> Inl TypeError
      | Some d \<Rightarrow>
          if d < length (byDayOfWeek s)
          then Inr (s\<lparr>byDayOfWeek :=
                       (byDayOfWeek s)
                         [d := byDayOfWeek s ! d @
                                 [\<lparr>booked = b, capacity = sp, rate = ratio b sp\<rparr>]]\<rparr>)
          else Inl TypeError)"

definition zero_bucket :: bucket where
  "zero_bucket = \<lparr>bucket.classes = 0, bucket.totalBooked = 0, bucket.totalCapacity = 0\<rparr>"

definition add_byHour :: "nat \<Rightarrow> int \<Rightarrow> int \<Rightarrow> state \<Rightarrow> state" where
  "add_byHour h b sp s =
     s\<lparr>state.byHour := modify h (add_session b sp) (ensure h zero_bucket (state.byHour s))\<rparr>"

text \<open>
  \<open>`${staff.firstname || ''} ${staff.lastname || ''}`.trim() || 'Unknown'\<close>.
\<close>

definition instructorName :: "staff \<Rightarrow> string" where
  "instructorName st =
     str_or (Some (trim (str_or (firstname st) [] @ [CHR '' ''] @ str_or (lastname st) [])))
       ''Unknown''"

definition new_instructorBucket :: "staff \<Rightarrow> instructorBucket" where
  "new_instructorBucket st =
     \<lparr>bucket.classes = 0, bucket.totalBooked = 0, bucket.totalCapacity = 0,
      instructorBucket.name = instructorName st,
      instructorBucket.imagekey = staff.imagekey st\<rparr>"

text \<open>
  The \<open>byInstructor\<close> part of the body for one staff member. When \<open>byInstructor[name]\<close>
  is an inherited member, no entry is created and the three updates set properties of
  that member: the dictionary stays as it is.
\<close>

definition add_staff :: "int \<Rightarrow> int \<Rightarrow> state \<Rightarrow> staff \<Rightarrow> state" where
  "add_staff b sp s st =
     s\<lparr>state.byInstructor :=
         modify (instructorName st) (add_session b sp)
           (ensure_named (instructorName st) (new_instructorBucket st) (state.byInstructor s))\<rparr>"

definition add_byInstructor :: "workout \<Rightarrow> int \<Rightarrow> int \<Rightarrow> state \<Rightarrow> state" where
  "add_byInstructor w b sp s =
     (case staffs w of
        None \<Rightarrow> s
      | Some sts \<Rightarrow> if length sts > 0 then foldl (add_staff b sp) s sts else s)"

text \<open>The \<open>byDate\<close> part of the body, with the same treatment of an inherited member.\<close>

definition add_byDate :: "string \<Rightarrow> int \<Rightarrow> int \<Rightarrow> state \<Rightarrow> state" where
  "add_byDate d b sp s =
     s\<lparr>byDate := modify d (add_session b sp) (ensure_named d zero_bucket (byDate s))\<rparr>"

text \<open>
  \<open>new Date(w.startTime).getDay()\<close> and \<open>.getHours()\<close>; an absent \<open>startTime\<close> gives an
  invalid date.
\<close>

definition getDay :: "(string \<Rightarrow> (nat \<times> nat) option) \<Rightarrow> workout \<Rightarrow> nat option" where
  "getDay Date w =
     (case workout.startTime w of None \<Rightarrow> None | Some str \<Rightarrow> map_option fst (Date str))"

definition getHours :: "(string \<Rightarrow> (nat \<times> nat) option) \<Rightarrow> workout \<Rightarrow> nat option" where
  "getHours Date w =
     (case workout.startTime w of None \<Rightarrow> None | Some str \<Rightarrow> map_option snd (Date str))"

text \<open>
  One iteration. \<open>w.startTime.split(' ')\<close> throws when \<open>startTime\<close> is absent; the push
  onto \<open>byType[typeName].bookings\<close> throws when the type name is that of an inherited
  member; the push onto \<open>byDayOfWeek[dayOfWeek]\<close> throws when the date is invalid.
\<close>

definition step :: "(string \<Rightarrow> (nat \<times> nat) option) \<Rightarrow> workout \<Rightarrow> state \<Rightarrow> error + state" where
  "step Date w s =
     (let space = space_of w;
          booked = booked_of w;
          dayOfWeek = getDay Date w;
          hour = getHours Date w
      in case workout.startTime w of
           None \<Rightarrow> Inl TypeError
         | Some str \<Rightarrow>
             (case add_byType w (count_totals booked space s) of
                Inl e \<Rightarrow> Inl e
              | Inr s1 \<Rightarrow>
                  (case add_byDay dayOfWeek booked space (add_users w s1) of
                     Inl e \<Rightarrow> Inl e
                   | Inr s' \<Rightarrow>
                       (case hour of
                          None \<Rightarrow> Inl TypeError
                        | Some h \<Rightarrow>
                            Inr (add_byDate (dateStr str) booked space
                                  (add_byInstructor w booked space
                                    (add_byHour h booked space s')))))))"

fun forEach :: "('a \<Rightarrow> 's \<Rightarrow> error + 's) \<Rightarrow> 'a list \<Rightarrow> 's \<Rightarrow> error + 's" where
  "forEach f [] s = Inr s"
| "forEach f (x # xs) s = (case f x s of Inl e \<Rightarrow> Inl e | Inr s' \<Rightarrow> forEach f xs s')"

subsection \<open>The statistics computed after the loop\<close>

text \<open>
  \<open>Object.values(byType).map(t => ({...t, ...})).sort(...)\<close>. The average booking rate
  is \<open>t.bookings.reduce((a, b) => a + b, 0) / t.bookings.length\<close>: the percentages are
  added from the left, in the order of the list, every sum rounded.
\<close>

definition typeStats :: "state \<Rightarrow> typeStat list" where
  "typeStats s =
     sort_key (\<lambda>e. - parseFloat (typeStat.attendanceRate e))
       (map (\<lambda>t. typeBucket.extend t
                   (typeStat.fields
                     (avg (bucket.totalBooked t) (int (bucket.classes t)))
                     (pct (bucket.totalBooked t) (bucket.totalCapacity t))
                     (if length (typeBucket.bookings t) > 0
                      then Text (toFixed1 (fdiv (foldl (\<lambda>a b. fadd a b) 0 (typeBucket.bookings t))
                                                (of_nat (length (typeBucket.bookings t)))))
                      else Num0)
                     (case map_of (uniqueUsersByType s) (typeBucket.name t) of
                        None \<Rightarrow> 0
                      | Some u \<Rightarrow> length u)))
            (map snd (state.byType s)))"

definition dayNames :: "string list" where
  "dayNames =
     [''Sunday'', ''Monday'', ''Tuesday'', ''Wednesday'', ''Thursday'', ''Friday'', ''Saturday'']"

definition dayStats :: "state \<Rightarrow> dayStat list" where
  "dayStats s =
     map (\<lambda>(name, i).
            let data = byDayOfWeek s ! i;
                totalBooked = foldl (\<lambda>sum d. sum + booked d) 0 data;
                totalCapacity = foldl (\<lambda>sum d. sum + capacity d) 0 data
            in \<lparr>day = name, dayIndex = i, dayStat.classes = length data,
                dayStat.avgAttendance = avg totalBooked (int (length data)),
                dayStat.attendanceRate = pct totalBooked totalCapacity\<rparr>)
       (zip dayNames [0 ..< length dayNames])"

definition hourStats :: "state \<Rightarrow> hourStat list" where
  "hourStats s =
     map (\<lambda>h. let data = (case map_of (state.byHour s) h of None \<Rightarrow> zero_bucket | Some d \<Rightarrow> d)
              in \<lparr>hour = h, label = show_nat h @ '':00'',
                  hourStat.classes = bucket.classes data,
                  hourStat.avgAttendance =
                    avg (bucket.totalBooked data) (int (bucket.classes data)),
                  hourStat.attendanceRate =
                    pct (bucket.totalBooked data) (bucket.totalCapacity data)\<rparr>)
       [5 ..< 23]"

definition instructorStats :: "state \<Rightarrow> instructorStat list" where
  "instructorStats s =
     sort_key (\<lambda>e. - parseFloat (instructorStat.attendanceRate e))
       (map (\<lambda>i. instructorBucket.extend i
                   (instructorStat.fields
                     (avg (bucket.totalBooked i) (int (bucket.classes i)))
                     (pct (bucket.totalBooked i) (bucket.totalCapacity i))))
            (map snd (state.byInstructor s)))"

text \<open>
  \<open>Object.keys(byDate).sort()\<close> orders the keys as strings; every key then reads its own
  entry of \<open>byDate\<close>.
\<close>

definition dailyTrend_of :: "state \<Rightarrow> trendEntry list" where
  "dailyTrend_of s =
     map (\<lambda>date. let data = the (map_of (byDate s) date)
                 in \<lparr>bucket.classes = bucket.classes data,
                     bucket.totalBooked = bucket.totalBooked data,
                     bucket.totalCapacity = bucket.totalCapacity data,
                     date = date,
                     trendEntry.attendanceRate = pct (bucket.totalBooked data) (bucket.totalCapacity data)\<rparr>)
       (sort (map fst (byDate s)))"

definition summary_of :: "state \<Rightarrow> summary" where
  "summary_of s =
     \<lparr>summary.totalClasses = state.totalClasses s,
      summary.totalBooked = state.totalBooked s,
      summary.totalCapacity = state.totalCapacity s,
      overallAttendanceRate = pct (state.totalBooked s) (state.totalCapacity s),
      avgPerClass = avg (state.totalBooked s) (int (state.totalClasses s)),
      summary.fullyBookedClasses = state.fullyBookedClasses s,
      fullyBookedRate = pct (int (state.fullyBookedClasses s)) (int (state.totalClasses s)),
      summary.emptyClasses = state.emptyClasses s,
      emptyRate = pct (int (state.emptyClasses s)) (int (state.totalClasses s)),
      summary.uniqueParticipants = length (allUniqueUsers s)\<rparr>"

definition init :: state where
  "init =
     \<lparr>byType = [], byDayOfWeek = [[], [], [], [], [], [], []], byHour = [],
      byInstructor = [], byDate = [],
      totalClasses = 0, totalBooked = 0, totalCapacity = 0,
      fullyBookedClasses = 0, emptyClasses = 0,
      allUniqueUsers = [], uniqueUsersByType = []\<rparr>"

definition report_of :: "state \<Rightarrow> report" where
  "report_of s =
     \<lparr>summary = summary_of s, report.byType = typeStats s, byDay = dayStats s,
      report.byHour = hourStats s, report.byInstructor = instructorStats s,
      dailyTrend = dailyTrend_of s\<rparr>"

definition processAnalytics ::
  "(string \<Rightarrow> (nat \<times> nat) option) \<Rightarrow> workout list \<Rightarrow> error + report" where
  "processAnalytics Date workouts =
     (case forEach (step Date) workouts init of
        Inl e \<Rightarrow> Inl e
      | Inr s \<Rightarrow> Inr (report_of s))"

subsection \<open>A concrete \<open>Date\<close> for the upstream format\<close>

text \<open>
  The scheduling API sends \<open>startTime\<close> as \<open>YYYY-MM-DD HH:MM:SS\<close>, which the engine reads
  as local wall-clock time: \<open>getDay()\<close> is the weekday of that calendar date (\<open>0\<close> is
  Sunday) and \<open>getHours()\<close> is \<open>HH\<close>. The ISO form \<open>YYYY-MM-DDTHH:MM:SS\<close> without a
  time zone is read as local time too. \<open>localDate\<close> is that reading of the two forms; it
  treats every other string as an invalid date. The theorems below hold for every
  \<open>Date\<close>; this one instantiates them at concrete inputs.
\<close>

definition leap :: "nat \<Rightarrow> bool" where
  "leap y = (y mod 4 = 0 \<and> (y mod 100 \<noteq> 0 \<or> y mod 400 = 0))"

definition daysInMonth :: "nat \<Rightarrow> nat \<Rightarrow> nat" where
  "daysInMonth y m =
     (if m = 2 then (if leap y then 29 else 28)
      else if m = 4 \<or> m = 6 \<or> m = 9 \<or> m = 11 then 30 else 31)"

definition weekday :: "nat \<Rightarrow> nat \<Rightarrow> nat \<Rightarrow> nat" where
  "weekday y m d =
     (let y' = (if m < 3 then y - 1 else y)
      in (y' + y' div 4 - y' div 100 + y' div 400
          + [0, 3, 2, 5, 0, 3, 5, 1, 4, 6, 2, 4] ! (m - 1) + d) mod 7)"

definition localDate :: "string \<Rightarrow> (nat \<times> nat) option" where
  "localDate str =
     (if length str = 19
         \<and> list_all (\<lambda>i. is_digit (str ! i)) [0, 1, 2, 3, 5, 6, 8, 9, 11, 12, 14, 15, 17, 18]
         \<and> str ! 4 = CHR ''-'' \<and> str ! 7 = CHR ''-''
         \<and> (str ! 10 = CHR '' '' \<or> str ! 10 = CHR ''T'')
         \<and> str ! 13 = CHR '':'' \<and> str ! 16 = CHR '':''
      then
        (let y = digits_val (take 4 str);
             m = digits_val (take 2 (drop 5 str));
             d = digits_val (take 2 (drop 8 str));
             h = digits_val (take 2 (drop 11 str));
             mi = digits_val (take 2 (drop 14 str));
             se = digits_val (take 2 (drop 17 str))
         in if 1 \<le> y \<and> 1 \<le> m \<and> m \<le> 12 \<and> 1 \<le> d \<and> d \<le> daysInMonth y m
               \<and> h < 24 \<and> mi < 60 \<and> se < 60
            then Some (weekday y m d, h)
            else None)
      else None)"

subsection \<open>What a session contributes\<close>

text \<open>
  The truthy user identifiers of the bookings of a session, its staff list, its date
  string, and whether the loop body runs through on it.
\<close>

definition userIds :: "workout \<Rightarrow> jsid list" where
  "userIds w =
     concat (map (\<lambda>b. case booking_userId b of
                         None \<Rightarrow> []
                       | Some v \<Rightarrow> if truthy v then [v] else [])
                 (case workout.bookings w of None \<Rightarrow> [] | Some bs \<Rightarrow> bs))"

definition instructors :: "workout \<Rightarrow> staff list" where
  "instructors w = (case staffs w of None \<Rightarrow> [] | Some sts \<Rightarrow> sts)"

definition date_of :: "workout \<Rightarrow> string" where
  "date_of w = (case workout.startTime w of None \<Rightarrow> [] | Some str \<Rightarrow> dateStr str)"


definition valid :: "(string \<Rightarrow> (nat \<times> nat) option) \<Rightarrow> workout \<Rightarrow> bool" where
  "valid Date w =
     ((case workout.startTime w of
         None \<Rightarrow> False
       | Some str \<Rightarrow> (case Date str of None \<Rightarrow> False | Some (d, h) \<Rightarrow> d < 7))
      \<and> \<not> proto_key (typeName w))"

text \<open>
  The accumulators after the \<open>byType\<close> part of the body, when it does not throw: the
  entry of the type is created if it is new, together with its set of users, and then
  updated.
\<close>

definition put_byType :: "workout \<Rightarrow> state \<Rightarrow> state" where
  "put_byType w s =
     s\<lparr>state.byType :=
         modify (typeName w)
           (\<lambda>t. (add_session (booked_of w) (space_of w) t)
                   \<lparr>typeBucket.bookings :=
                      typeBucket.bookings t @ [ratio (booked_of w) (space_of w)]\<rparr>)
           (ensure (typeName w) (new_typeBucket w) (state.byType s)),
       uniqueUsersByType :=
         (if map_of (state.byType s) (typeName w) = None
          then assign (typeName w) [] (uniqueUsersByType s) else uniqueUsersByType s)\<rparr>"

text \<open>The loop on the initial accumulators.\<close>

definition run :: "(string \<Rightarrow> (nat \<times> nat) option) \<Rightarrow> workout list \<Rightarrow> error + state" where
  "run Date ws = forEach (step Date) ws init"

text \<open>The totals of a group of sessions.\<close>

definition sum_bucket :: "workout list \<Rightarrow> bucket" where
  "sum_bucket grp =
     \<lparr>bucket.classes = length grp,
      bucket.totalBooked = sum_list (map booked_of grp),
      bucket.totalCapacity = sum_list (map space_of grp)\<rparr>"

definition dayEntry_of :: "workout \<Rightarrow> dayEntry" where
  "dayEntry_of w =
     \<lparr>booked = booked_of w, capacity = space_of w, rate = ratio (booked_of w) (space_of w)\<rparr>"

subsection \<open>The entries of the report as functions of the input\<close>

text \<open>The \<open>byType\<close> entry of the type \<open>k\<close>, from the sessions of that type in input order.\<close>

definition type_bucket :: "string \<Rightarrow> workout list \<Rightarrow> typeBucket" where
  "type_bucket k grp =
     \<lparr>bucket.classes = length grp,
      bucket.totalBooked = sum_list (map booked_of grp),
      bucket.totalCapacity = sum_list (map space_of grp),
      typeBucket.name = k,
      typeBucket.color = typeBucket.color (new_typeBucket (hd grp)),
      typeBucket.bookings = map (\<lambda>w. ratio (booked_of w) (space_of w)) grp\<rparr>"

text \<open>The users of the sessions of type \<open>k\<close>, and of all sessions.\<close>

definition users_of_type :: "string \<Rightarrow> workout list \<Rightarrow> jsid set" where
  "users_of_type k ws = (\<Union>w \<in> set (filter (\<lambda>w. typeName w = k) ws). set (userIds w))"

definition users_of :: "workout list \<Rightarrow> jsid set" where
  "users_of ws = (\<Union>w \<in> set ws. set (userIds w))"

text \<open>
  The instructor occurrences of the input, in the order the loops visit them: one pair for
  every staff member of every session.
\<close>

definition occurrences :: "workout list \<Rightarrow> (staff \<times> workout) list" where
  "occurrences ws = concat (map (\<lambda>w. map (\<lambda>st. (st, w)) (instructors w)) ws)"

text \<open>The display names and the date keys that get an entry of their own.\<close>

definition bucket_names :: "workout list \<Rightarrow> string set" where
  "bucket_names ws =
     {k \<in> (\<Union>w\<in>set ws. instructorName ` set (instructors w)). \<not> proto_key k}"

definition date_keys :: "workout list \<Rightarrow> string set" where
  "date_keys ws = {d \<in> date_of ` set ws. \<not> proto_key d}"

definition occurrences_of :: "string \<Rightarrow> workout list \<Rightarrow> (staff \<times> workout) list" where
  "occurrences_of k ws = filter (\<lambda>p. instructorName (fst p) = k) (occurrences ws)"

definition instructor_bucket :: "string \<Rightarrow> (staff \<times> workout) list \<Rightarrow> instructorBucket" where
  "instructor_bucket k occ =
     \<lparr>bucket.classes = length occ,
      bucket.totalBooked = sum_list (map (\<lambda>p. booked_of (snd p)) occ),
      bucket.totalCapacity = sum_list (map (\<lambda>p. space_of (snd p)) occ),
      instructorBucket.name = k,
      instructorBucket.imagekey = staff.imagekey (fst (hd occ))\<rparr>"

definition instructor_dict ::
  "(string \<times> instructorBucket) list \<Rightarrow> (staff \<times> workout) list \<Rightarrow> bool" where
  "instructor_dict I occ =
     (\<forall>k. map_of I k =
            (if k \<in> (\<lambda>p. instructorName (fst p)) ` set occ \<and> \<not> proto_key k
             then Some (instructor_bucket k (filter (\<lambda>p. instructorName (fst p) = k) occ))
             else None))"

text \<open>The \<open>byType\<close> entry of the report for the type \<open>k\<close>.\<close>

definition type_stat :: "string \<Rightarrow> workout list \<Rightarrow> typeStat" where
  "type_stat k ws =
     (let grp = filter (\<lambda>w. typeName w = k) ws
      in typeBucket.extend (type_bucket k grp)
           (typeStat.fields
              (avg (sum_list (map booked_of grp)) (int (length grp)))
              (pct (sum_list (map booked_of grp)) (sum_list (map space_of grp)))
              (Text (toFixed1 (fdiv (foldl fadd 0 (map (\<lambda>w. ratio (booked_of w) (space_of w)) grp))
                                    (of_nat (length grp)))))
              (card (users_of_type k ws))))"

text \<open>The \<open>byInstructor\<close> entry of the report for the display name \<open>k\<close>.\<close>

definition instructor_stat :: "string \<Rightarrow> workout list \<Rightarrow> instructorStat" where
  "instructor_stat k ws =
     (let occ = occurrences_of k ws
      in instructorBucket.extend (instructor_bucket k occ)
           (instructorStat.fields
              (avg (sum_list (map (\<lambda>p. booked_of (snd p)) occ)) (int (length occ)))
              (pct (sum_list (map (\<lambda>p. booked_of (snd p)) occ))
                   (sum_list (map (\<lambda>p. space_of (snd p)) occ)))))"

text \<open>The \<open>dailyTrend\<close> entry of the report for the date \<open>d\<close>.\<close>

definition trend_entry :: "string \<Rightarrow> workout list \<Rightarrow> trendEntry" where
  "trend_entry d ws =
     (let grp = filter (\<lambda>w. date_of w = d) ws
      in \<lparr>bucket.classes = length grp,
          bucket.totalBooked = sum_list (map booked_of grp),
          bucket.totalCapacity = sum_list (map space_of grp),
          date = d,
          trendEntry.attendanceRate =
            pct (sum_list (map booked_of grp)) (sum_list (map space_of grp))\<rparr>)"

text \<open>The \<open>byDay\<close> entry of the weekday \<open>i\<close> and the \<open>byHour\<close> entry of the hour \<open>h\<close>.\<close>

definition day_stat ::
  "(string \<Rightarrow> (nat \<times> nat) option) \<Rightarrow> string \<Rightarrow> nat \<Rightarrow> workout list \<Rightarrow> dayStat" where
  "day_stat Date nm i ws =
     (let grp = filter (\<lambda>w. getDay Date w = Some i) ws
      in \<lparr>day = nm, dayIndex = i, dayStat.classes = length grp,
          dayStat.avgAttendance = avg (sum_list (map booked_of grp)) (int (length grp)),
          dayStat.attendanceRate =
            pct (sum_list (map booked_of grp)) (sum_list (map space_of grp))\<rparr>)"

definition hour_stat ::
  "(string \<Rightarrow> (nat \<times> nat) option) \<Rightarrow> nat \<Rightarrow> workout list \<Rightarrow> hourStat" where
  "hour_stat Date h ws =
     (let grp = filter (\<lambda>w. getHours Date w = Some h) ws
      in \<lparr>hour = h, label = show_nat h @ '':00'', hourStat.classes = length grp,
          hourStat.avgAttendance = avg (sum_list (map booked_of grp)) (int (length grp)),
          hourStat.attendanceRate =
            pct (sum_list (map booked_of grp)) (sum_list (map space_of grp))\<rparr>)"

subsection \<open>Rates and numeric content\<close>

text \<open>
  A text with one decimal place: an optional minus sign, at least one digit, a point and
  one digit.
\<close>

definition one_decimal :: "string \<Rightarrow> bool" where
  "one_decimal s =
     (let t = (case s of c # u \<Rightarrow> if c = CHR ''-'' then u else s | [] \<Rightarrow> s)
      in 3 \<le> length t
         \<and> list_all is_digit (take (length t - 2) t)
         \<and> t ! (length t - 2) = CHR ''.''
         \<and> is_digit (t ! (length t - 1)))"

text \<open>
  The percentage of \<open>a\<close> over \<open>n\<close> is the binary64 number \<open>a / n * 100\<close>; the mean
  percentage of a group of sessions is the sum of their percentages (\<open>0\<close> for a session
  without capacity), added in the order of the group, over their number.
\<close>

definition percentage :: "int \<Rightarrow> int \<Rightarrow> rat" where
  "percentage a n = fmul (fdiv (of_int a) (of_int n)) 100"

definition mean_percentage :: "workout list \<Rightarrow> rat" where
  "mean_percentage grp =
     fdiv (foldl fadd 0
             (map (\<lambda>w. if space_of w > 0 then percentage (booked_of w) (space_of w) else 0) grp))
          (of_nat (length grp))"

text \<open>
  What the specification says of a rate field \<open>x\<close> whose percentage is \<open>q\<close> and whose
  denominator is \<open>n\<close>: the number \<open>0\<close> when the denominator is zero (the code tests
  \<open>n > 0\<close>), and otherwise a text with one decimal place that reads as \<open>q\<close> rounded to
  it, the number it denotes being as close to \<open>q\<close> as one decimal place allows.
\<close>

definition is_rate :: "num_or_text \<Rightarrow> rat \<Rightarrow> int \<Rightarrow> bool" where
  "is_rate x q n =
     (if n > 0
      then (case x of Num0 \<Rightarrow> False
            | Text s \<Rightarrow> one_decimal s \<and> \<bar>decimal s - q\<bar> \<le> 1 / 20)
      else x = Num0)"

text \<open>
  The part of a \<open>byType\<close> entry that does not depend on the order of the input: its
  name, counters, the \<open>bookings\<close> as a multiset, average attendance, attendance rate and
  unique participants (not the order of \<open>bookings\<close>, the average booking rate and the
  colour); and of a \<open>byInstructor\<close> entry: all but the image key.
\<close>

definition type_view ::
  "typeStat \<Rightarrow> string \<times> nat \<times> int \<times> int \<times> rat multiset
                \<times> num_or_text \<times> num_or_text \<times> nat" where
  "type_view e =
     (typeBucket.name e, bucket.classes e, bucket.totalBooked e, bucket.totalCapacity e,
      mset (typeBucket.bookings e), typeStat.avgAttendance e, typeStat.attendanceRate e,
      typeStat.uniqueParticipants e)"

definition instructor_view ::
  "instructorStat \<Rightarrow> string \<times> nat \<times> int \<times> int \<times> num_or_text \<times> num_or_text" where
  "instructor_view e =
     (instructorBucket.name e, bucket.classes e, bucket.totalBooked e,
      bucket.totalCapacity e, instructorStat.avgAttendance e,
      instructorStat.attendanceRate e)"

subsection \<open>Example sessions\<close>

definition session ::
  "string \<Rightarrow> int option \<Rightarrow> int option \<Rightarrow> string \<Rightarrow> staff list option \<Rightarrow> booking list option
   \<Rightarrow> workout" where
  "session tn sp b str sts bs =
     \<lparr>workoutType = Some \<lparr>workoutType.name = Some tn, workoutType.color = None\<rparr>,
      space = sp, numBooked = b, startTime = Some str, staffs = sts, bookings = bs\<rparr>"

definition booking_of :: "jsid option \<Rightarrow> jsid option \<Rightarrow> jsid option \<Rightarrow> booking" where
  "booking_of a b c =
     \<lparr>user_id = a, userId = b, user = (case c of None \<Rightarrow> None | Some v \<Rightarrow> Some \<lparr>id' = Some v\<rparr>)\<rparr>"

definition staff_of :: "string \<Rightarrow> string \<Rightarrow> staff" where
  "staff_of a b = \<lparr>firstname = Some a, lastname = Some b, staff.imagekey = None\<rparr>"

definition ex_totals :: "workout list" where
  "ex_totals =
     [session ''Spin'' (Some 10) (Some 10) ''2024-01-15 18:00:00'' None None,
      session ''Spin'' None (Some 0) ''2024-01-16 07:00:00'' None None,
      session ''Yoga'' (Some 5) (Some 3) ''2024-01-16 18:00:00'' None None]"

definition ex_rates :: "workout list" where
  "ex_rates =
     [session ''HIIT'' (Some 10) (Some 10) ''2024-01-15 18:00:00'' None None,
      session ''HIIT'' (Some 5) (Some 0) ''2024-01-16 18:00:00'' None None]"

definition ex_users :: "workout list" where
  "ex_users =
     [session ''Yoga'' (Some 12) (Some 3) ''2024-01-15 18:00:00'' None
        (Some [booking_of (Some (IdNum 7)) None None,
               booking_of (Some (IdNum 9)) None None,
               booking_of None None None]),
      session ''Spin'' (Some 10) (Some 2) ''2024-01-16 07:00:00'' None
        (Some [booking_of None (Some (IdNum 7)) None,
               booking_of None None (Some (IdNum 9))])]"

definition ex_trend :: "workout list" where
  "ex_trend =
     [session ''Spin'' (Some 10) (Some 4) ''2024-01-16 07:00:00'' None None,
      session ''Yoga'' (Some 12) (Some 8) ''2024-01-15 18:00:00'' None None,
      session ''Spin'' (Some 10) (Some 10) ''2024-01-16 18:00:00'' None None]"

definition ex_two_staff :: "workout list" where
  "ex_two_staff =
     [session ''Yoga'' (Some 12) (Some 6) ''2024-01-15 18:00:00''
        (Some [staff_of ''Ann'' ''Lee'', staff_of ''Bo'' ''Ek'']) None]"

definition ex_no_staff :: "workout list" where
  "ex_no_staff =
     [session ''Yoga'' (Some 12) (Some 6) ''2024-01-15 18:00:00'' None None,
      session ''Spin'' (Some 10) (Some 4) ''2024-01-16 07:00:00'' (Some []) None]"

definition ex_one_of_three :: "workout list" where
  "ex_one_of_three =
     [session ''Yoga'' (Some 12) (Some 6) ''2024-01-15 18:00:00'' None None,
      session ''Spin'' (Some 10) (Some 4) ''2024-01-16 07:00:00'' (Some []) None,
      session ''Spin'' (Some 10) (Some 10) ''2024-01-16 18:00:00''
        (Some [staff_of ''Ann'' ''Lee'']) None]"

definition ex_sum_order :: "workout list" where
  "ex_sum_order =
     [session ''Spin'' (Some 30) (Some 1) ''2024-01-15 18:00:00'' None None,
      session ''Spin'' (Some 16) (Some 1) ''2024-01-16 07:00:00'' None None,
      session ''Spin'' (Some 6) (Some 1) ''2024-01-16 18:00:00'' None None]"

definition ex_sum_order' :: "workout list" where
  "ex_sum_order' =
     [session ''Spin'' (Some 30) (Some 1) ''2024-01-15 18:00:00'' None None,
      session ''Spin'' (Some 6) (Some 1) ''2024-01-16 18:00:00'' None None,
      session ''Spin'' (Some 16) (Some 1) ''2024-01-16 07:00:00'' None None]"



definition ex_no_startTime :: "workout list" where
  "ex_no_startTime =
     [\<lparr>workoutType = Some \<lparr>workoutType.name = Some ''Yoga'', workoutType.color = None\<rparr>,
       space = Some 12, numBooked = Some 8, startTime = None, staffs = None,
       bookings = None\<rparr>]"

section \<open>Properties\<close>

subsection \<open>Dictionaries and the loop\<close>

lemma map_of_assign: "map_of (assign k v kvs) = (map_of kvs)(k \<mapsto> v)"
  by (induction kvs) (auto simp: fun_eq_iff)

lemma keys_assign:
  "map fst (assign k v kvs) = (if k \<in> fst ` set kvs then map fst kvs else map fst kvs @ [k])"
  by (induction kvs) (force simp: image_iff)+

lemma map_of_modify:
  "map_of (modify k f kvs) =
     (case map_of kvs k of None \<Rightarrow> map_of kvs | Some v \<Rightarrow> (map_of kvs)(k \<mapsto> f v))"
  by (induction kvs) (auto simp: fun_eq_iff split: option.splits)

lemma keys_modify: "map fst (modify k f kvs) = map fst kvs"
  by (induction kvs) auto

lemma map_of_upsert:
  "map_of (modify k f (ensure k v0 kvs)) =
     (map_of kvs)(k \<mapsto> f (case map_of kvs k of None \<Rightarrow> v0 | Some v \<Rightarrow> v))"
  by (auto simp: ensure_def map_of_modify map_of_assign fun_eq_iff split: option.splits)

lemma keys_upsert:
  "map fst (modify k f (ensure k v0 kvs)) =
     (if k \<in> fst ` set kvs then map fst kvs else map fst kvs @ [k])"
  by (auto simp: ensure_def keys_modify keys_assign map_of_eq_None_iff)

lemma ensure_named_eq:
  "ensure_named k v0 kvs =
     (if proto_key k \<and> map_of kvs k = None then kvs else ensure k v0 kvs)"
  by (simp add: ensure_named_def ensure_def lookup_def split: option.splits)

lemma modify_absent: "map_of kvs k = None \<Longrightarrow> modify k f kvs = kvs"
  by (induction kvs) (auto split: if_splits)

lemma upsert_named:
  "modify k f (ensure_named k v0 kvs) =
     (if proto_key k \<and> map_of kvs k = None then kvs else modify k f (ensure k v0 kvs))"
  by (simp add: ensure_named_eq modify_absent)

lemma map_of_upsert_named:
  "map_of (modify k f (ensure_named k v0 kvs)) =
     (if proto_key k \<and> map_of kvs k = None then map_of kvs
      else (map_of kvs)(k \<mapsto> f (case map_of kvs k of None \<Rightarrow> v0 | Some v \<Rightarrow> v)))"
  by (simp add: upsert_named map_of_upsert)

lemma keys_upsert_named:
  "map fst (modify k f (ensure_named k v0 kvs)) =
     (if k \<in> fst ` set kvs \<or> proto_key k then map fst kvs else map fst kvs @ [k])"
  by (auto simp: upsert_named keys_upsert map_of_eq_None_iff)

lemma add_byType_eq:
  "add_byType w s =
     (if proto_key (typeName w) \<and> map_of (state.byType s) (typeName w) = None
      then Inl TypeError else Inr (put_byType w s))"
  by (auto simp: add_byType_def put_byType_def lookup_def ensure_def map_of_assign Let_def
        split: option.splits)

lemma forEach_snoc:
  "forEach f (xs @ [x]) s = (case forEach f xs s of Inl e \<Rightarrow> Inl e | Inr s' \<Rightarrow> f x s')"
  by (induction xs arbitrary: s) (auto split: sum.splits)

lemma run_Nil: "run Date [] = Inr init"
  by (simp add: run_def)

lemma run_snoc:
  "run Date (ws @ [w]) = (case run Date ws of Inl e \<Rightarrow> Inl e | Inr s \<Rightarrow> step Date w s)"
  by (simp add: run_def forEach_snoc)

lemma add_users_eq:
  "add_users w s =
     s\<lparr>allUniqueUsers := foldl (\<lambda>A v. set_add v A) (allUniqueUsers s) (userIds w),
       uniqueUsersByType :=
         foldl (\<lambda>U v. modify (typeName w) (set_add v) U) (uniqueUsersByType s) (userIds w)\<rparr>"
proof -
  have "foldl (add_user tn) s bs =
          s\<lparr>allUniqueUsers := foldl (\<lambda>A v. set_add v A) (allUniqueUsers s)
               (concat (map (\<lambda>b. case booking_userId b of None \<Rightarrow> []
                                  | Some v \<Rightarrow> if truthy v then [v] else []) bs)),
            uniqueUsersByType := foldl (\<lambda>U v. modify tn (set_add v) U) (uniqueUsersByType s)
               (concat (map (\<lambda>b. case booking_userId b of None \<Rightarrow> []
                                  | Some v \<Rightarrow> if truthy v then [v] else []) bs))\<rparr>"
    for tn bs
    by (induction bs arbitrary: s) (auto simp: add_user_def split: option.splits)
  then show ?thesis
    by (simp add: add_users_def userIds_def split: option.splits)
qed

lemma add_byInstructor_eq:
  "add_byInstructor w b sp s =
     s\<lparr>state.byInstructor :=
         foldl (\<lambda>I st. modify (instructorName st) (add_session b sp)
                         (ensure_named (instructorName st) (new_instructorBucket st) I))
           (state.byInstructor s) (instructors w)\<rparr>"
proof -
  have "foldl (add_staff b sp) s sts =
          s\<lparr>state.byInstructor :=
              foldl (\<lambda>I st. modify (instructorName st) (add_session b sp)
                              (ensure_named (instructorName st) (new_instructorBucket st) I))
                (state.byInstructor s) sts\<rparr>" for sts
    by (induction sts arbitrary: s) (auto simp: add_staff_def)
  then show ?thesis
    by (simp add: add_byInstructor_def instructors_def split: option.splits)
qed

lemma step_eq:
  "step Date w s =
     (case workout.startTime w of
        None \<Rightarrow> Inl TypeError
      | Some str \<Rightarrow>
          if proto_key (typeName w) \<and> map_of (state.byType s) (typeName w) = None
          then Inl TypeError
          else (case add_byDay (getDay Date w) (booked_of w) (space_of w)
                       (add_users w (put_byType w (count_totals (booked_of w) (space_of w) s))) of
                  Inl e \<Rightarrow> Inl e
                | Inr s' \<Rightarrow>
                    (case getHours Date w of
                       None \<Rightarrow> Inl TypeError
                     | Some h \<Rightarrow>
                         Inr (add_byDate (dateStr str) (booked_of w) (space_of w)
                               (add_byInstructor w (booked_of w) (space_of w)
                                 (add_byHour h (booked_of w) (space_of w) s'))))))"
proof -
  have "state.byType (count_totals b sp s) = state.byType s" for b sp
    by (simp add: count_totals_def)
  then show ?thesis
    by (auto simp: step_def add_byType_eq Let_def split: option.splits)
qed

lemma step_Inr:
  assumes "step Date w s = Inr s'" and "length (byDayOfWeek s) = 7"
  shows "\<exists>str d h. workout.startTime w = Some str \<and> Date str = Some (d, h) \<and> d < 7
           \<and> (map_of (state.byType s) (typeName w) \<noteq> None \<or> \<not> proto_key (typeName w))
           \<and> s' = add_byDate (dateStr str) (booked_of w) (space_of w)
                    (add_byInstructor w (booked_of w) (space_of w)
                      (add_byHour h (booked_of w) (space_of w)
                        ((add_users w (put_byType w (count_totals (booked_of w) (space_of w) s)))
                           \<lparr>byDayOfWeek :=
                              (byDayOfWeek s)[d := byDayOfWeek s ! d @
                                 [\<lparr>booked = booked_of w, capacity = space_of w,
                                   rate = ratio (booked_of w) (space_of w)\<rparr>]]\<rparr>)))"
  using assms
  by (auto simp: step_eq getDay_def getHours_def add_byDay_def add_users_eq put_byType_def
        count_totals_def Let_def split: option.splits sum.splits if_splits)

lemma step_valid:
  assumes "valid Date w" and "length (byDayOfWeek s) = 7"
  shows "\<exists>s'. step Date w s = Inr s'"
  using assms
  by (auto simp: valid_def step_eq getDay_def getHours_def add_byDay_def add_users_eq
        put_byType_def count_totals_def Let_def split: option.splits sum.splits if_splits)

lemmas upd_defs =
  add_byDate_def add_byInstructor_eq add_byHour_def add_users_eq put_byType_def
  count_totals_def Let_def

lemma step_length_days:
  assumes "step Date w s = Inr s'" and "length (byDayOfWeek s) = 7"
  shows "length (byDayOfWeek s') = 7"
  using step_Inr[OF assms] assms(2)
  by (auto simp: upd_defs)

lemma run_length_days: "run Date ws = Inr s \<Longrightarrow> length (byDayOfWeek s) = 7"
proof (induction ws arbitrary: s rule: rev_induct)
  case Nil
  then show ?case by (auto simp: run_Nil init_def)
next
  case (snoc w ws)
  then show ?case
    by (auto simp: run_snoc split: sum.splits dest: step_length_days)
qed

lemma run_snoc_Inr:
  assumes "run Date (ws @ [w]) = Inr s'"
  obtains s where "run Date ws = Inr s" and "step Date w s = Inr s'"
    and "length (byDayOfWeek s) = 7"
  using assms by (auto simp: run_snoc split: sum.splits dest: run_length_days)

lemma step_totals:
  assumes "step Date w s = Inr s'" and "length (byDayOfWeek s) = 7"
  shows "state.totalClasses s' = state.totalClasses s + 1"
    and "state.totalBooked s' = state.totalBooked s + booked_of w"
    and "state.totalCapacity s' = state.totalCapacity s + space_of w"
    and "state.fullyBookedClasses s' =
           (if space_of w > 0 \<and> booked_of w \<ge> space_of w
            then state.fullyBookedClasses s + 1 else state.fullyBookedClasses s)"
    and "state.emptyClasses s' =
           (if booked_of w = 0 then state.emptyClasses s + 1 else state.emptyClasses s)"
  using step_Inr[OF assms]
  by (auto simp: upd_defs)

lemma step_byDate:
  assumes "step Date w s = Inr s'" and "length (byDayOfWeek s) = 7"
  shows "byDate s' =
           modify (date_of w) (add_session (booked_of w) (space_of w))
             (ensure_named (date_of w) zero_bucket (byDate s))"
  using step_Inr[OF assms]
  by (auto simp: upd_defs date_of_def)

lemma step_byHour:
  assumes "step Date w s = Inr s'" and "length (byDayOfWeek s) = 7"
  shows "\<exists>h. getHours Date w = Some h \<and>
           state.byHour s' =
             modify h (add_session (booked_of w) (space_of w))
               (ensure h zero_bucket (state.byHour s))"
  using step_Inr[OF assms]
  by (auto simp: upd_defs getHours_def)

lemma step_byDay:
  assumes "step Date w s = Inr s'" and "length (byDayOfWeek s) = 7"
  shows "\<exists>d < 7. getDay Date w = Some d \<and>
           byDayOfWeek s' =
             (byDayOfWeek s)[d := byDayOfWeek s ! d @
                [\<lparr>booked = booked_of w, capacity = space_of w,
                  rate = ratio (booked_of w) (space_of w)\<rparr>]]"
  using step_Inr[OF assms]
  by (auto simp: upd_defs getDay_def)

lemma step_byInstructor:
  assumes "step Date w s = Inr s'" and "length (byDayOfWeek s) = 7"
  shows "state.byInstructor s' =
           foldl (\<lambda>I st. modify (instructorName st) (add_session (booked_of w) (space_of w))
                           (ensure_named (instructorName st) (new_instructorBucket st) I))
             (state.byInstructor s) (instructors w)"
  using step_Inr[OF assms]
  by (auto simp: upd_defs)

lemma step_byType:
  assumes "step Date w s = Inr s'" and "length (byDayOfWeek s) = 7"
  shows "state.byType s' =
           modify (typeName w)
             (\<lambda>t. (add_session (booked_of w) (space_of w) t)
                     \<lparr>typeBucket.bookings :=
                        typeBucket.bookings t @ [ratio (booked_of w) (space_of w)]\<rparr>)
             (ensure (typeName w) (new_typeBucket w) (state.byType s))"
    and "map_of (state.byType s) (typeName w) \<noteq> None \<or> \<not> proto_key (typeName w)"
  using step_Inr[OF assms]
  by (auto simp: upd_defs)

lemma step_users:
  assumes "step Date w s = Inr s'" and "length (byDayOfWeek s) = 7"
  shows "allUniqueUsers s' = foldl (\<lambda>A v. set_add v A) (allUniqueUsers s) (userIds w)"
    and "uniqueUsersByType s' =
           foldl (\<lambda>U v. modify (typeName w) (set_add v) U)
             (if map_of (state.byType s) (typeName w) = None
              then assign (typeName w) [] (uniqueUsersByType s) else uniqueUsersByType s)
             (userIds w)"
  using step_Inr[OF assms]
  by (auto simp: upd_defs)

lemma run_totals:
  assumes "run Date ws = Inr s"
  shows "state.totalClasses s = length ws"
    and "state.totalBooked s = sum_list (map booked_of ws)"
    and "state.totalCapacity s = sum_list (map space_of ws)"
    and "state.fullyBookedClasses s =
           length (filter (\<lambda>w. space_of w > 0 \<and> booked_of w \<ge> space_of w) ws)"
    and "state.emptyClasses s = length (filter (\<lambda>w. booked_of w = 0) ws)"
  using assms
proof (induction ws arbitrary: s rule: rev_induct)
  case Nil
  {
    case 1 then show ?case by (auto simp: run_Nil init_def)
  next
    case 2 then show ?case by (auto simp: run_Nil init_def)
  next
    case 3 then show ?case by (auto simp: run_Nil init_def)
  next
    case 4 then show ?case by (auto simp: run_Nil init_def)
  next
    case 5 then show ?case by (auto simp: run_Nil init_def)
  }
next
  case (snoc w ws)
  {
    case 1
    from 1 obtain s0 where r: "run Date ws = Inr s0" "step Date w s0 = Inr s"
      "length (byDayOfWeek s0) = 7" by (rule run_snoc_Inr)
    show ?case using step_totals(1)[OF r(2,3)] snoc.IH(1)[OF r(1)] by simp
  next
    case 2
    from 2 obtain s0 where r: "run Date ws = Inr s0" "step Date w s0 = Inr s"
      "length (byDayOfWeek s0) = 7" by (rule run_snoc_Inr)
    show ?case using step_totals(2)[OF r(2,3)] snoc.IH(2)[OF r(1)] by simp
  next
    case 3
    from 3 obtain s0 where r: "run Date ws = Inr s0" "step Date w s0 = Inr s"
      "length (byDayOfWeek s0) = 7" by (rule run_snoc_Inr)
    show ?case using step_totals(3)[OF r(2,3)] snoc.IH(3)[OF r(1)] by simp
  next
    case 4
    from 4 obtain s0 where r: "run Date ws = Inr s0" "step Date w s0 = Inr s"
      "length (byDayOfWeek s0) = 7" by (rule run_snoc_Inr)
    show ?case using step_totals(4)[OF r(2,3)] snoc.IH(4)[OF r(1)] by simp
  next
    case 5
    from 5 obtain s0 where r: "run Date ws = Inr s0" "step Date w s0 = Inr s"
      "length (byDayOfWeek s0) = 7" by (rule run_snoc_Inr)
    show ?case using step_totals(5)[OF r(2,3)] snoc.IH(5)[OF r(1)] by simp
  }
qed

subsection \<open>The accumulators after the loop\<close>

lemma zero_bucket_eq: "zero_bucket = sum_bucket []"
  by (simp add: zero_bucket_def sum_bucket_def)

lemma add_session_sum_bucket:
  "add_session (booked_of w) (space_of w) (sum_bucket grp) = sum_bucket (grp @ [w])"
  by (simp add: add_session_def sum_bucket_def)

lemma filter_key_empty: "k \<notin> f ` set ws \<Longrightarrow> filter (\<lambda>w. f w = k) ws = []"
  by (induction ws) auto

lemma run_byDate:
  "run Date ws = Inr s \<Longrightarrow>
   map_of (byDate s) k =
     (if k \<in> date_of ` set ws \<and> \<not> proto_key k
      then Some (sum_bucket (filter (\<lambda>w. date_of w = k) ws))
      else None)"
proof (induction ws arbitrary: s k rule: rev_induct)
  case Nil
  then show ?case by (auto simp: run_Nil init_def)
next
  case (snoc w ws)
  from snoc.prems obtain s0 where r: "run Date ws = Inr s0" "step Date w s0 = Inr s"
    "length (byDayOfWeek s0) = 7" by (rule run_snoc_Inr)
  note IH = snoc.IH[OF r(1)]
  show ?case
    unfolding step_byDate[OF r(2,3)] map_of_upsert_named
    by (auto simp: IH zero_bucket_eq add_session_sum_bucket filter_key_empty)
qed

lemma run_byHour:
  "run Date ws = Inr s \<Longrightarrow>
   map_of (state.byHour s) h =
     (if Some h \<in> getHours Date ` set ws
      then Some (sum_bucket (filter (\<lambda>w. getHours Date w = Some h) ws))
      else None)"
proof (induction ws arbitrary: s h rule: rev_induct)
  case Nil
  then show ?case by (auto simp: run_Nil init_def)
next
  case (snoc w ws)
  from snoc.prems obtain s0 where r: "run Date ws = Inr s0" "step Date w s0 = Inr s"
    "length (byDayOfWeek s0) = 7" by (rule run_snoc_Inr)
  note IH = snoc.IH[OF r(1)]
  from step_byHour[OF r(2,3)] obtain h' where h': "getHours Date w = Some h'"
    "state.byHour s = modify h' (add_session (booked_of w) (space_of w))
                        (ensure h' zero_bucket (state.byHour s0))" by blast
  show ?case
    unfolding h'(2) map_of_upsert
    by (auto simp: IH h'(1) zero_bucket_eq add_session_sum_bucket filter_key_empty)
qed

lemma run_byDay:
  "run Date ws = Inr s \<Longrightarrow> i < 7 \<Longrightarrow>
   byDayOfWeek s ! i = map dayEntry_of (filter (\<lambda>w. getDay Date w = Some i) ws)"
proof (induction ws arbitrary: s i rule: rev_induct)
  case Nil
  then show ?case by (auto simp: run_Nil init_def nth_Cons' )
next
  case (snoc w ws)
  from snoc.prems(1) obtain s0 where r: "run Date ws = Inr s0" "step Date w s0 = Inr s"
    "length (byDayOfWeek s0) = 7" by (rule run_snoc_Inr)
  note IH = snoc.IH[OF r(1)]
  from step_byDay[OF r(2,3)] obtain d where d: "d < 7" "getDay Date w = Some d"
    "byDayOfWeek s = (byDayOfWeek s0)[d := byDayOfWeek s0 ! d @
                [\<lparr>booked = booked_of w, capacity = space_of w,
                  rate = ratio (booked_of w) (space_of w)\<rparr>]]" by blast
  show ?case
    using snoc.prems(2) r(3) d(1)
    by (auto simp: d(2,3) IH nth_list_update dayEntry_of_def)
qed

lemma run_byType_None:
  "run Date ws = Inr s \<Longrightarrow> map_of (state.byType s) k = None \<longleftrightarrow> k \<notin> typeName ` set ws"
proof (induction ws arbitrary: s k rule: rev_induct)
  case Nil
  then show ?case by (auto simp: run_Nil init_def)
next
  case (snoc w ws)
  from snoc.prems obtain s0 where r: "run Date ws = Inr s0" "step Date w s0 = Inr s"
    "length (byDayOfWeek s0) = 7" by (rule run_snoc_Inr)
  note IH = snoc.IH[OF r(1)]
  show ?case
    unfolding step_byType(1)[OF r(2,3)] map_of_upsert
    using IH[of k] by auto
qed

lemma run_valid: "run Date ws = Inr s \<Longrightarrow> list_all (valid Date) ws"
proof (induction ws arbitrary: s rule: rev_induct)
  case Nil
  then show ?case by simp
next
  case (snoc w ws)
  from snoc.prems obtain s0 where r: "run Date ws = Inr s0" "step Date w s0 = Inr s"
    "length (byDayOfWeek s0) = 7" by (rule run_snoc_Inr)
  note IH = snoc.IH[OF r(1)]
  have "\<not> proto_key (typeName w)"
  proof
    assume p: "proto_key (typeName w)"
    with step_byType(2)[OF r(2,3)] have "map_of (state.byType s0) (typeName w) \<noteq> None"
      by simp
    then have "typeName w \<in> typeName ` set ws"
      by (simp add: run_byType_None[OF r(1)])
    then obtain w' where "w' \<in> set ws" "typeName w' = typeName w" by auto
    with IH have "\<not> proto_key (typeName w)"
      by (auto simp: list_all_iff valid_def)
    with p show False by simp
  qed
  with step_Inr[OF r(2,3)] have "valid Date w" by (auto simp: valid_def)
  with IH show ?case by simp
qed

lemma valid_run: "list_all (valid Date) ws \<Longrightarrow> \<exists>s. run Date ws = Inr s"
proof (induction ws rule: rev_induct)
  case Nil
  then show ?case by (simp add: run_Nil)
next
  case (snoc w ws)
  then obtain s0 where s0: "run Date ws = Inr s0" by auto
  from snoc.prems have "valid Date w" by simp
  from step_valid[OF this run_length_days[OF s0]] s0 show ?case
    by (auto simp: run_snoc)
qed

lemma run_Inl: "run Date ws = Inl e \<Longrightarrow> \<not> list_all (valid Date) ws"
  using valid_run[of Date ws] by auto

subsection \<open>The report\<close>

lemma processAnalytics_Inr:
  "processAnalytics Date ws = Inr r \<longleftrightarrow> (\<exists>s. run Date ws = Inr s \<and> r = report_of s)"
  by (auto simp: processAnalytics_def run_def split: sum.splits)

lemma processAnalytics_valid:
  "list_all (valid Date) ws \<Longrightarrow> \<exists>r. processAnalytics Date ws = Inr r"
  using valid_run[of Date ws] by (auto simp: processAnalytics_Inr)

lemma space_of_eq: "space_of w = (case space w of None \<Rightarrow> 0 | Some n \<Rightarrow> n)"
  by (simp add: space_of_def num_or0_def split: option.splits)

lemma booked_of_eq: "booked_of w = (case numBooked w of None \<Rightarrow> 0 | Some n \<Rightarrow> n)"
  by (simp add: booked_of_def num_or0_def split: option.splits)

lemma space_of_fun: "space_of = (\<lambda>w. case space w of None \<Rightarrow> 0 | Some n \<Rightarrow> n)"
  by (rule ext) (rule space_of_eq)

lemma booked_of_fun: "booked_of = (\<lambda>w. case numBooked w of None \<Rightarrow> 0 | Some n \<Rightarrow> n)"
  by (rule ext) (rule booked_of_eq)

lemma localDate_examples:
  "localDate ''2024-01-15 18:00:00'' = Some (1, 18)"
  "localDate ''2024-01-16 07:00:00'' = Some (2, 7)"
  "localDate ''2024-01-16 18:00:00'' = Some (2, 18)"
  "localDate ''2024-01-15T18:00:00'' = Some (1, 18)"
  "localDate ''2024-01-15T19:00:00'' = Some (1, 19)"
  by (simp_all add: localDate_def is_digit_def digits_val_def digit_val_def daysInMonth_def
        leap_def weekday_def)

subsection \<open>Summary totals\<close>

text \<open>
  C2. For every input on which a report is returned: \<open>summary.totalCapacity\<close> is the sum of
  the sessions' capacities, a missing capacity counting as \<open>0\<close>; \<open>summary.totalBooked\<close> is
  the sum of the booked counts; \<open>summary.totalClasses\<close> is the number of sessions;
  \<open>summary.fullyBookedClasses\<close> counts exactly the sessions with capacity \<open>> 0\<close> and booked
  \<open>\<ge>\<close> capacity; \<open>summary.emptyClasses\<close> counts exactly the sessions with booked \<open>= 0\<close>,
  whatever their capacity.
\<close>

theorem summary_totals:
  assumes "processAnalytics Date ws = Inr r"
  shows "summary.totalCapacity (summary r)
           = (\<Sum>w\<leftarrow>ws. case space w of None \<Rightarrow> 0 | Some n \<Rightarrow> n)
       \<and> summary.totalBooked (summary r)
           = (\<Sum>w\<leftarrow>ws. case numBooked w of None \<Rightarrow> 0 | Some n \<Rightarrow> n)
       \<and> summary.totalClasses (summary r) = length ws
       \<and> summary.fullyBookedClasses (summary r)
           = length (filter (\<lambda>w. (case space w of None \<Rightarrow> 0 | Some n \<Rightarrow> n) > 0
                               \<and> (case numBooked w of None \<Rightarrow> 0 | Some n \<Rightarrow> n)
                                   \<ge> (case space w of None \<Rightarrow> 0 | Some n \<Rightarrow> n)) ws)
       \<and> summary.emptyClasses (summary r)
           = length (filter (\<lambda>w. (case numBooked w of None \<Rightarrow> 0 | Some n \<Rightarrow> n) = 0) ws)"
proof -
  from assms obtain s where s: "run Date ws = Inr s" "r = report_of s"
    by (auto simp: processAnalytics_Inr)
  show ?thesis
    using run_totals[OF s(1)]
    by (simp add: s(2) report_of_def summary_of_def space_of_fun booked_of_fun)
qed

theorem summary_totals_witness:
  "\<exists>r. processAnalytics localDate ex_totals = Inr r
       \<and> summary.totalCapacity (summary r) = 15
       \<and> summary.totalBooked (summary r) = 13
       \<and> summary.totalClasses (summary r) = 3
       \<and> summary.fullyBookedClasses (summary r) = 1
       \<and> summary.emptyClasses (summary r) = 1"
proof -
  have "list_all (valid localDate) ex_totals"
    by (simp add: ex_totals_def session_def valid_def localDate_examples typeName_def
          str_or_def proto_key_def)
  then obtain r where r: "processAnalytics localDate ex_totals = Inr r"
    using processAnalytics_valid by blast
  from summary_totals[OF r] r show ?thesis
    by (simp add: ex_totals_def session_def)
qed

lemma new_typeBucket_eq: "new_typeBucket w = type_bucket (typeName w) []
     \<lparr>typeBucket.color := typeBucket.color (new_typeBucket w)\<rparr>"
  by (simp add: new_typeBucket_def type_bucket_def)

lemma type_bucket_first:
  "(add_session (booked_of w) (space_of w) (new_typeBucket w))
     \<lparr>typeBucket.bookings :=
        typeBucket.bookings (new_typeBucket w) @ [ratio (booked_of w) (space_of w)]\<rparr>
   = type_bucket (typeName w) [w]"
  by (simp add: new_typeBucket_def type_bucket_def add_session_def)

lemma type_bucket_snoc:
  "grp \<noteq> [] \<Longrightarrow>
   (add_session (booked_of w) (space_of w) (type_bucket k grp))
     \<lparr>typeBucket.bookings :=
        typeBucket.bookings (type_bucket k grp) @ [ratio (booked_of w) (space_of w)]\<rparr>
   = type_bucket k (grp @ [w])"
  by (simp add: type_bucket_def add_session_def)

lemma filter_key_nonempty: "k \<in> f ` set ws \<Longrightarrow> filter (\<lambda>w. f w = k) ws \<noteq> []"
  by (induction ws) auto

lemma run_byType:
  "run Date ws = Inr s \<Longrightarrow>
   map_of (state.byType s) k =
     (if k \<in> typeName ` set ws then Some (type_bucket k (filter (\<lambda>w. typeName w = k) ws))
      else None)"
proof (induction ws arbitrary: s k rule: rev_induct)
  case Nil
  then show ?case by (auto simp: run_Nil init_def)
next
  case (snoc w ws)
  from snoc.prems obtain s0 where r: "run Date ws = Inr s0" "step Date w s0 = Inr s"
    "length (byDayOfWeek s0) = 7" by (rule run_snoc_Inr)
  note IH = snoc.IH[OF r(1)]
  show ?case
    unfolding step_byType(1)[OF r(2,3)] map_of_upsert
    by (auto simp: IH type_bucket_first type_bucket_snoc filter_key_empty filter_key_nonempty)
qed

lemma run_byType_distinct: "run Date ws = Inr s \<Longrightarrow> distinct (map fst (state.byType s))"
proof (induction ws arbitrary: s rule: rev_induct)
  case Nil
  then show ?case by (auto simp: run_Nil init_def)
next
  case (snoc w ws)
  from snoc.prems obtain s0 where r: "run Date ws = Inr s0" "step Date w s0 = Inr s"
    "length (byDayOfWeek s0) = 7" by (rule run_snoc_Inr)
  show ?case
    unfolding step_byType(1)[OF r(2,3)] keys_upsert using snoc.IH[OF r(1)] by auto
qed

lemma run_byDate_distinct: "run Date ws = Inr s \<Longrightarrow> distinct (map fst (byDate s))"
proof (induction ws arbitrary: s rule: rev_induct)
  case Nil
  then show ?case by (auto simp: run_Nil init_def)
next
  case (snoc w ws)
  from snoc.prems obtain s0 where r: "run Date ws = Inr s0" "step Date w s0 = Inr s"
    "length (byDayOfWeek s0) = 7" by (rule run_snoc_Inr)
  show ?case
    unfolding step_byDate[OF r(2,3)] keys_upsert_named using snoc.IH[OF r(1)] by auto
qed

lemma keys_of_map_of: "fst ` set kvs = {k. map_of kvs k \<noteq> None}"
  by (auto simp: map_of_eq_None_iff)

lemma run_byType_keys: "run Date ws = Inr s \<Longrightarrow> fst ` set (state.byType s) = typeName ` set ws"
  by (auto simp: keys_of_map_of run_byType)

lemma run_byDate_keys: "run Date ws = Inr s \<Longrightarrow> fst ` set (byDate s) = date_keys ws"
  by (auto simp: keys_of_map_of run_byDate date_keys_def)

lemma set_add_fold:
  "set (foldl (\<lambda>A v. set_add v A) A vs) = set A \<union> set vs"
  by (induction vs arbitrary: A) (auto simp: set_add_def)

lemma distinct_add_fold:
  "distinct A \<Longrightarrow> distinct (foldl (\<lambda>A v. set_add v A) A vs)"
  by (induction vs arbitrary: A) (auto simp: set_add_def)

lemma run_allUniqueUsers:
  "run Date ws = Inr s \<Longrightarrow> distinct (allUniqueUsers s) \<and> set (allUniqueUsers s) = users_of ws"
proof (induction ws arbitrary: s rule: rev_induct)
  case Nil
  then show ?case by (auto simp: run_Nil init_def users_of_def)
next
  case (snoc w ws)
  from snoc.prems obtain s0 where r: "run Date ws = Inr s0" "step Date w s0 = Inr s"
    "length (byDayOfWeek s0) = 7" by (rule run_snoc_Inr)
  show ?case
    unfolding step_users(1)[OF r(2,3)] using snoc.IH[OF r(1)]
    by (auto simp: set_add_fold distinct_add_fold users_of_def)
qed

lemma map_of_modify_fold:
  "map_of (foldl (\<lambda>U v. modify k (set_add v) U) U vs) =
     (case map_of U k of
        None \<Rightarrow> map_of U
      | Some u \<Rightarrow> (map_of U)(k \<mapsto> foldl (\<lambda>A v. set_add v A) u vs))"
proof (induction vs arbitrary: U)
  case Nil
  then show ?case by (auto split: option.splits)
next
  case (Cons v vs)
  show ?case
    by (auto simp: Cons.IH map_of_modify split: option.splits)
qed

lemma run_uniqueUsersByType:
  "run Date ws = Inr s \<Longrightarrow>
   (case map_of (uniqueUsersByType s) k of
      None \<Rightarrow> k \<notin> typeName ` set ws
    | Some u \<Rightarrow> k \<in> typeName ` set ws \<and> distinct u \<and> set u = users_of_type k ws)"
proof (induction ws arbitrary: s k rule: rev_induct)
  case Nil
  then show ?case by (auto simp: run_Nil init_def)
next
  case (snoc w ws)
  from snoc.prems obtain s0 where r: "run Date ws = Inr s0" "step Date w s0 = Inr s"
    "length (byDayOfWeek s0) = 7" by (rule run_snoc_Inr)
  note IH = snoc.IH[OF r(1)]
  have none: "map_of (state.byType s0) (typeName w) = None \<longleftrightarrow> typeName w \<notin> typeName ` set ws"
    by (simp add: run_byType[OF r(1)])
  show ?case
  proof (cases "typeName w \<in> typeName ` set ws")
    case True
    with IH[of "typeName w"] obtain u where u: "map_of (uniqueUsersByType s0) (typeName w) = Some u"
      "distinct u" "set u = users_of_type (typeName w) ws"
      by (auto split: option.splits)
    show ?thesis
      unfolding step_users(2)[OF r(2,3)] map_of_modify_fold
      using True IH[of k] u
      by (auto simp: none set_add_fold distinct_add_fold users_of_type_def split: option.splits)
  next
    case False
    with IH[of "typeName w"] have u: "map_of (uniqueUsersByType s0) (typeName w) = None"
      by (auto split: option.splits)
    show ?thesis
      unfolding step_users(2)[OF r(2,3)] map_of_modify_fold
      using False IH[of k] u
      by (auto simp: none map_of_assign set_add_fold distinct_add_fold users_of_type_def
            filter_key_empty split: option.splits)
  qed
qed

lemma instructor_bucket_first:
  "add_session (booked_of w) (space_of w) (new_instructorBucket st)
   = instructor_bucket (instructorName st) [(st, w)]"
  by (simp add: new_instructorBucket_def instructor_bucket_def add_session_def)

lemma instructor_bucket_snoc:
  "occ \<noteq> [] \<Longrightarrow>
   add_session (booked_of w) (space_of w) (instructor_bucket k occ)
   = instructor_bucket k (occ @ [(st, w)])"
  by (simp add: instructor_bucket_def add_session_def)

lemma instructor_dict_step:
  assumes "instructor_dict I occ"
  shows "instructor_dict
           (modify (instructorName st) (add_session (booked_of w) (space_of w))
              (ensure_named (instructorName st) (new_instructorBucket st) I))
           (occ @ [(st, w)])"
proof (cases "proto_key (instructorName st)")
  case True
  with assms[unfolded instructor_dict_def] have "map_of I (instructorName st) = None"
    by simp
  with True show ?thesis
    unfolding instructor_dict_def upsert_named
    using assms[unfolded instructor_dict_def]
    by auto
next
  case False
  then show ?thesis
    unfolding instructor_dict_def map_of_upsert_named
    using assms[unfolded instructor_dict_def]
    by (auto simp: instructor_bucket_first instructor_bucket_snoc
          filter_key_empty[of _ "\<lambda>p. instructorName (fst p)"]
          filter_key_nonempty[of _ "\<lambda>p. instructorName (fst p)"])
qed

lemma instructor_dict_fold:
  "instructor_dict I occ \<Longrightarrow>
   instructor_dict
     (foldl (\<lambda>I st. modify (instructorName st) (add_session (booked_of w) (space_of w))
                      (ensure_named (instructorName st) (new_instructorBucket st) I)) I sts)
     (occ @ map (\<lambda>st. (st, w)) sts)"
proof (induction sts arbitrary: I occ)
  case Nil
  then show ?case by simp
next
  case (Cons st sts)
  from Cons.IH[OF instructor_dict_step[OF Cons.prems, of st w]] show ?case by simp
qed

lemma run_byInstructor:
  "run Date ws = Inr s \<Longrightarrow> instructor_dict (state.byInstructor s) (occurrences ws)"
proof (induction ws arbitrary: s rule: rev_induct)
  case Nil
  then show ?case by (auto simp: run_Nil init_def instructor_dict_def occurrences_def)
next
  case (snoc w ws)
  from snoc.prems obtain s0 where r: "run Date ws = Inr s0" "step Date w s0 = Inr s"
    "length (byDayOfWeek s0) = 7" by (rule run_snoc_Inr)
  from instructor_dict_fold[OF snoc.IH[OF r(1)], of w "instructors w"]
  show ?case
    unfolding step_byInstructor[OF r(2,3)] by (simp add: occurrences_def)
qed

lemma distinct_upsert_fold:
  "distinct (map fst D) \<Longrightarrow>
   distinct (map fst (foldl (\<lambda>D x. modify (key x) (upd x) (ensure_named (key x) (new x) D)) D xs))"
proof (induction xs arbitrary: D)
  case Nil
  then show ?case by simp
next
  case (Cons x xs)
  have "distinct (map fst (modify (key x) (upd x) (ensure_named (key x) (new x) D)))"
    unfolding keys_upsert_named using Cons.prems by auto
  from Cons.IH[OF this] show ?case by simp
qed

lemma run_byInstructor_distinct:
  "run Date ws = Inr s \<Longrightarrow> distinct (map fst (state.byInstructor s))"
proof (induction ws arbitrary: s rule: rev_induct)
  case Nil
  then show ?case by (auto simp: run_Nil init_def)
next
  case (snoc w ws)
  from snoc.prems obtain s0 where r: "run Date ws = Inr s0" "step Date w s0 = Inr s"
    "length (byDayOfWeek s0) = 7" by (rule run_snoc_Inr)
  show ?case
    unfolding step_byInstructor[OF r(2,3)]
    by (rule distinct_upsert_fold) (rule snoc.IH[OF r(1)])
qed

lemma run_byInstructor_lookup:
  assumes "run Date ws = Inr s"
  shows "map_of (state.byInstructor s) k =
     (if occurrences_of k ws = [] \<or> proto_key k then None
      else Some (instructor_bucket k (occurrences_of k ws)))"
proof -
  have "occurrences_of k ws = [] \<longleftrightarrow> k \<notin> (\<lambda>p. instructorName (fst p)) ` set (occurrences ws)"
    unfolding occurrences_of_def filter_empty_conv by auto
  with run_byInstructor[OF assms, unfolded instructor_dict_def] show ?thesis
    by (simp add: occurrences_of_def)
qed

text \<open>An association list with distinct keys lists the values of its keys.\<close>

lemma distinct_alist_values:
  "distinct (map fst kvs) \<Longrightarrow> map snd kvs = map (\<lambda>k. the (map_of kvs k)) (map fst kvs)"
proof (induction kvs)
  case Nil
  then show ?case by simp
next
  case (Cons p kvs)
  obtain k v where p: "p = (k, v)" by (cases p)
  from Cons.prems have k: "k \<notin> fst ` set kvs" and d: "distinct (map fst kvs)"
    by (simp_all add: p)
  have "map (\<lambda>k'. the (map_of ((k, v) # kvs) k')) (map fst kvs)
        = map (\<lambda>k'. the (map_of kvs k')) (map fst kvs)"
    using k by (intro map_cong) auto
  with Cons.IH[OF d] show ?case by (simp add: p)
qed

lemma occurrences_of_length:
  "length (occurrences_of k ws)
   = (\<Sum>w\<leftarrow>ws. length (filter (\<lambda>st. instructorName st = k) (instructors w)))"
  by (induction ws) (auto simp: occurrences_of_def occurrences_def filter_map o_def)

lemma occurrences_of_booked:
  "sum_list (map (\<lambda>p. booked_of (snd p)) (occurrences_of k ws))
   = (\<Sum>w\<leftarrow>ws. int (length (filter (\<lambda>st. instructorName st = k) (instructors w)))
                 * booked_of w)"
  by (induction ws)
     (auto simp: occurrences_of_def occurrences_def filter_map o_def sum_list_const_mult
        sum_list_triv algebra_simps)

lemma occurrences_of_space:
  "sum_list (map (\<lambda>p. space_of (snd p)) (occurrences_of k ws))
   = (\<Sum>w\<leftarrow>ws. int (length (filter (\<lambda>st. instructorName st = k) (instructors w)))
                 * space_of w)"
  by (induction ws)
     (auto simp: occurrences_of_def occurrences_def filter_map o_def sum_list_const_mult
        sum_list_triv algebra_simps)

subsection \<open>The lists of the report\<close>

lemma foldl_add: "foldl (\<lambda>a b. a + b) (a :: 'a :: comm_monoid_add) xs = a + sum_list xs"
  by (induction xs arbitrary: a) (simp_all add: add.assoc)

lemma foldl_add_map:
  "foldl (\<lambda>sum d. sum + f d) (a :: 'a :: comm_monoid_add) xs = a + sum_list (map f xs)"
  by (induction xs arbitrary: a) (simp_all add: add.assoc)

lemma run_typeStats:
  assumes "run Date ws = Inr s"
  shows "typeStats s =
           sort_key (\<lambda>e. - parseFloat (typeStat.attendanceRate e))
             (map (\<lambda>k. type_stat k ws) (map fst (state.byType s)))"
proof -
  have "(\<lambda>t. typeBucket.extend t
                   (typeStat.fields
                     (avg (bucket.totalBooked t) (int (bucket.classes t)))
                     (pct (bucket.totalBooked t) (bucket.totalCapacity t))
                     (if length (typeBucket.bookings t) > 0
                      then Text (toFixed1 (fdiv (foldl fadd 0 (typeBucket.bookings t))
                                                (of_nat (length (typeBucket.bookings t)))))
                      else Num0)
                     (case map_of (uniqueUsersByType s) (typeBucket.name t) of
                        None \<Rightarrow> 0
                      | Some u \<Rightarrow> length u))) (the (map_of (state.byType s) k))
        = type_stat k ws" if "k \<in> set (map fst (state.byType s))" for k
  proof -
    from that have k: "k \<in> typeName ` set ws"
      using run_byType_keys[OF assms] by simp
    then have grp: "filter (\<lambda>w. typeName w = k) ws \<noteq> []"
      by (rule filter_key_nonempty)
    from run_uniqueUsersByType[OF assms, of k] k
    obtain u where u: "map_of (uniqueUsersByType s) k = Some u" "distinct u"
      "set u = users_of_type k ws"
      by (auto split: option.splits)
    from u(2,3) have "length u = card (users_of_type k ws)"
      by (metis distinct_card)
    then show ?thesis
      using k grp u(1)
      by (simp add: run_byType[OF assms] type_stat_def type_bucket_def Let_def)
  qed
  then show ?thesis
    unfolding typeStats_def distinct_alist_values[OF run_byType_distinct[OF assms]]
    by (simp add: o_def cong: map_cong)
qed

lemma run_instructorStats:
  assumes "run Date ws = Inr s"
  shows "instructorStats s =
           sort_key (\<lambda>e. - parseFloat (instructorStat.attendanceRate e))
             (map (\<lambda>k. instructor_stat k ws) (map fst (state.byInstructor s)))"
proof -
  have "(\<lambda>i. instructorBucket.extend i
                   (instructorStat.fields
                     (avg (bucket.totalBooked i) (int (bucket.classes i)))
                     (pct (bucket.totalBooked i) (bucket.totalCapacity i))))
          (the (map_of (state.byInstructor s) k))
        = instructor_stat k ws" if "k \<in> set (map fst (state.byInstructor s))" for k
  proof -
    from that have "map_of (state.byInstructor s) k \<noteq> None"
      by (simp add: map_of_eq_None_iff)
    then have "occurrences_of k ws \<noteq> [] \<and> \<not> proto_key k"
      by (auto simp: run_byInstructor_lookup[OF assms] split: if_splits)
    then show ?thesis
      by (simp add: run_byInstructor_lookup[OF assms] instructor_stat_def instructor_bucket_def
            Let_def)
  qed
  then show ?thesis
    unfolding instructorStats_def distinct_alist_values[OF run_byInstructor_distinct[OF assms]]
    by (simp add: o_def cong: map_cong)
qed

lemma instructor_names_eq:
  "(\<lambda>p. instructorName (fst p)) ` set (occurrences ws)
   = (\<Union>w\<in>set ws. instructorName ` set (instructors w))"
  by (force simp: occurrences_def)

lemma run_byInstructor_keys:
  "run Date ws = Inr s \<Longrightarrow> fst ` set (state.byInstructor s) = bucket_names ws"
  using run_byInstructor[of Date ws s]
  unfolding bucket_names_def instructor_names_eq[symmetric]
  by (auto simp: keys_of_map_of instructor_dict_def)

lemma run_dailyTrend:
  assumes "run Date ws = Inr s"
  shows "dailyTrend_of s = map (\<lambda>d. trend_entry d ws) (sort (map fst (byDate s)))"
proof -
  have "k \<in> date_of ` set ws \<and> \<not> proto_key k" if "k \<in> set (sort (map fst (byDate s)))" for k
    using that run_byDate_keys[OF assms] by (simp add: date_keys_def)
  then show ?thesis
    unfolding dailyTrend_of_def
    by (intro map_cong) (simp_all add: run_byDate[OF assms] trend_entry_def sum_bucket_def Let_def)
qed

subsection \<open>Evaluation at concrete inputs\<close>

lemma floor_rat_numeral: "\<lfloor>(numeral a :: rat) / numeral b\<rfloor> = numeral a div numeral b"
  by (metis floor_divide_of_int_eq of_int_numeral)

lemmas float_defs =
  fdiv_def fmul_def fadd_def rnd_def expo.simps pow2_def half_even_def Let_def floor_rat_numeral

lemmas eval_defs =
  processAnalytics_def step_def getDay_def getHours_def add_byDay_def add_byType_def
  add_users_def add_user_def add_byHour_def add_byInstructor_def add_staff_def add_byDate_def
  count_totals_def add_session_def ensure_def ensure_named_def lookup_def proto_key_def
  new_typeBucket_def new_instructorBucket_def
  typeName_def space_of_def booked_of_def num_or0_def str_or_def dateStr_def ratio_def
  init_def report_of_def summary_of_def typeStats_def dayStats_def hourStats_def
  instructorStats_def dailyTrend_of_def pct_def avg_def zero_bucket_def dayNames_def
  session_def typeBucket.defs typeStat.defs instructorBucket.defs instructorStat.defs
  toFixed1_def show_nat.simps digit_def parseFloat_def decimal_def parseDec_def is_digit_def
  digits_val_def digit_val_def float_defs
  localDate_examples booking_userId_def id_or_def truthy_def set_add_def
  instructorName_def trim_def is_ws_def booking_of_def staff_of_def

lemma ex_valid:
  "list_all (valid localDate) ex_rates"
  "list_all (valid localDate) ex_users"
  "list_all (valid localDate) ex_trend"
  by (simp_all add: ex_rates_def ex_users_def ex_trend_def session_def valid_def
        localDate_examples typeName_def str_or_def proto_key_def)

subsection \<open>Average booking rate and attendance rate of a type\<close>

lemma typeStats_member:
  assumes "run Date ws = Inr s" and "e \<in> set (typeStats s)"
  obtains k where "k \<in> typeName ` set ws" and "e = type_stat k ws"
    and "typeBucket.name e = k"
proof -
  from assms(2) obtain k where k: "k \<in> fst ` set (state.byType s)" "e = type_stat k ws"
    unfolding run_typeStats[OF assms(1)] by auto
  have "typeBucket.name (type_stat k ws) = k"
    by (simp add: type_stat_def type_bucket_def typeBucket.defs typeStat.defs Let_def)
  with k run_byType_keys[OF assms(1)] that show ?thesis by simp
qed

text \<open>
  C5. For every type group of the report, \<open>avgBookingRate\<close> is the mean of the sessions'
  own percentages \<open>booked / capacity * 100\<close> (\<open>0\<close> for a session without capacity), and
  \<open>attendanceRate\<close> is the summed booked over the summed capacity, both computed in
  binary64 arithmetic and written with one decimal place: the mean is the sum of the
  percentages, added in input order, over their number. For two sessions of one type with
  capacities 10 and 5 and booked 10 and 0 the attendance rate is \<open>"66.7"\<close> and the
  average booking rate is \<open>"50.0"\<close>.
\<close>

theorem avgBookingRate_mean_of_ratios:
  "(\<forall>r e. processAnalytics Date ws = Inr r \<longrightarrow> e \<in> set (report.byType r) \<longrightarrow>
      (let grp = filter (\<lambda>w. typeName w = typeBucket.name e) ws
       in grp \<noteq> []
          \<and> avgBookingRate e =
              Text (toFixed1
                (fdiv (foldl fadd 0
                         (map (\<lambda>w. if space_of w > 0
                                   then fmul (fdiv (of_int (booked_of w)) (of_int (space_of w)))
                                          100
                                   else 0) grp))
                      (of_nat (length grp))))
          \<and> typeStat.attendanceRate e =
              (if (\<Sum>w\<leftarrow>grp. space_of w) > 0
               then Text (toFixed1 (fmul (fdiv (of_int (\<Sum>w\<leftarrow>grp. booked_of w))
                                               (of_int (\<Sum>w\<leftarrow>grp. space_of w))) 100))
               else Num0)))
   \<and> (\<exists>r. processAnalytics localDate ex_rates = Inr r
          \<and> map (\<lambda>e. (typeBucket.name e, typeStat.attendanceRate e, avgBookingRate e))
                (report.byType r)
              = [(''HIIT'', Text ''66.7'', Text ''50.0'')])"
proof (intro conjI allI impI)
  fix r e
  assume r: "processAnalytics Date ws = Inr r" and e: "e \<in> set (report.byType r)"
  from r obtain s where s: "run Date ws = Inr s" "r = report_of s"
    by (auto simp: processAnalytics_Inr)
  from e have "e \<in> set (typeStats s)" by (simp add: s(2) report_of_def)
  from typeStats_member[OF s(1) this]
  obtain k where k: "k \<in> typeName ` set ws" and eq: "e = type_stat k ws"
    and nm: "typeBucket.name e = k" by blast
  have grp: "filter (\<lambda>w. typeName w = k) ws \<noteq> []"
    using k by (rule filter_key_nonempty)
  have a: "avgBookingRate (type_stat k ws) =
          Text (toFixed1
                (fdiv (foldl fadd 0
                         (map (\<lambda>w. if space_of w > 0
                                   then fmul (fdiv (of_int (booked_of w)) (of_int (space_of w)))
                                          100
                                   else 0) (filter (\<lambda>w. typeName w = k) ws)))
                      (of_nat (length (filter (\<lambda>w. typeName w = k) ws)))))"
    by (simp add: type_stat_def typeBucket.defs typeStat.defs Let_def ratio_def)
  have b: "typeStat.attendanceRate (type_stat k ws) =
          (if (\<Sum>w\<leftarrow>filter (\<lambda>w. typeName w = k) ws. space_of w) > 0
           then Text (toFixed1
                  (fmul (fdiv (of_int (\<Sum>w\<leftarrow>filter (\<lambda>w. typeName w = k) ws. booked_of w))
                              (of_int (\<Sum>w\<leftarrow>filter (\<lambda>w. typeName w = k) ws. space_of w)))
                        100))
           else Num0)"
    by (simp add: type_stat_def typeBucket.defs typeStat.defs Let_def pct_def)
  show "let grp = filter (\<lambda>w. typeName w = typeBucket.name e) ws
       in grp \<noteq> []
          \<and> avgBookingRate e =
              Text (toFixed1
                (fdiv (foldl fadd 0
                         (map (\<lambda>w. if space_of w > 0
                                   then fmul (fdiv (of_int (booked_of w)) (of_int (space_of w)))
                                          100
                                   else 0) grp))
                      (of_nat (length grp))))
          \<and> typeStat.attendanceRate e =
              (if (\<Sum>w\<leftarrow>grp. space_of w) > 0
               then Text (toFixed1 (fmul (fdiv (of_int (\<Sum>w\<leftarrow>grp. booked_of w))
                                               (of_int (\<Sum>w\<leftarrow>grp. space_of w))) 100))
               else Num0)"
    unfolding Let_def nm unfolding eq using grp a b by (intro conjI)
next
  show "\<exists>r. processAnalytics localDate ex_rates = Inr r
          \<and> map (\<lambda>e. (typeBucket.name e, typeStat.attendanceRate e, avgBookingRate e))
                (report.byType r)
              = [(''HIIT'', Text ''66.7'', Text ''50.0'')]"
    by (simp add: ex_rates_def eval_defs)
qed

theorem avgBookingRate_mean_of_ratios_witness:
  "\<exists>r e. processAnalytics localDate ex_rates = Inr r \<and> e \<in> set (report.byType r)
         \<and> typeBucket.name e = ''HIIT''
         \<and> avgBookingRate e = Text ''50.0''
         \<and> typeStat.attendanceRate e = Text ''66.7''"
proof -
  obtain r where r: "processAnalytics localDate ex_rates = Inr r"
    using processAnalytics_valid[OF ex_valid(1)] by blast
  from r obtain s where s: "run localDate ex_rates = Inr s" "r = report_of s"
    by (auto simp: processAnalytics_Inr)
  have "''HIIT'' \<in> fst ` set (state.byType s)"
    unfolding run_byType_keys[OF s(1)] by (simp add: ex_rates_def session_def typeName_def str_or_def)
  then have "type_stat ''HIIT'' ex_rates \<in> (\<lambda>k. type_stat k ex_rates) ` fst ` set (state.byType s)"
    by (rule imageI)
  then have "type_stat ''HIIT'' ex_rates \<in> set (report.byType r)"
    by (simp add: s(2) report_of_def run_typeStats[OF s(1)] image_image)
  moreover have n: "typeBucket.name (type_stat ''HIIT'' ex_rates) = ''HIIT''"
    by (simp add: type_stat_def type_bucket_def typeBucket.defs typeStat.defs Let_def)
  ultimately obtain e where e: "e \<in> set (report.byType r)" "typeBucket.name e = ''HIIT''"
    by blast
  have g: "filter (\<lambda>w. typeName w = ''HIIT'') ex_rates = ex_rates"
    by (simp add: ex_rates_def session_def typeName_def str_or_def)
  have v1: "toFixed1
                (fdiv (foldl fadd 0
                         (map (\<lambda>w. if space_of w > 0
                                   then fmul (fdiv (of_int (booked_of w)) (of_int (space_of w)))
                                          100
                                   else 0) ex_rates))
                      (of_nat (length ex_rates))) = ''50.0''"
    by (simp add: ex_rates_def session_def space_of_def booked_of_def num_or0_def toFixed1_def
          show_nat.simps digit_def float_defs)
  have v2: "(if (\<Sum>w\<leftarrow>ex_rates. space_of w) > 0
               then Text (toFixed1 (fmul (fdiv (of_int (\<Sum>w\<leftarrow>ex_rates. booked_of w))
                                               (of_int (\<Sum>w\<leftarrow>ex_rates. space_of w))) 100))
               else Num0) = Text ''66.7''"
    by (simp add: ex_rates_def session_def space_of_def booked_of_def num_or0_def toFixed1_def
          show_nat.simps digit_def float_defs)
  note t = avgBookingRate_mean_of_ratios[of localDate ex_rates, THEN conjunct1, rule_format,
      OF r e(1), unfolded Let_def e(2) g v1 v2]
  from t have "avgBookingRate e = Text ''50.0'' \<and> typeStat.attendanceRate e = Text ''66.7''"
    by (elim conjE) (intro conjI)
  with r e show ?thesis by blast
qed

subsection \<open>Unique participants\<close>

lemma set_concat_ids:
  "set (concat (map (\<lambda>b. case f b of None \<Rightarrow> [] | Some v \<Rightarrow> if P v then [v] else []) bs))
   = (\<Union>b\<in>set bs. {v. f b = Some v \<and> P v})"
  by (induction bs) (auto split: option.splits if_splits)

lemma users_of_eq:
  "users_of ws =
     (\<Union>w\<in>set ws. \<Union>b\<in>set (case workout.bookings w of None \<Rightarrow> [] | Some bs \<Rightarrow> bs).
        {v. booking_userId b = Some v \<and> truthy v})"
  unfolding users_of_def userIds_def set_concat_ids ..

text \<open>
  C7. \<open>summary.uniqueParticipants\<close> is the number of distinct user identifiers found in the
  bookings of all sessions together: the identifier of a booking is the first truthy one
  of \<open>user_id\<close>, \<open>userId\<close> and \<open>user.id\<close>; a booking without one contributes nothing, and
  an identifier that occurs in several sessions is counted once.
\<close>

theorem uniqueParticipants_distinct_users:
  assumes "processAnalytics Date ws = Inr r"
  shows "summary.uniqueParticipants (summary r) =
           card (\<Union>w\<in>set ws. \<Union>b\<in>set (case workout.bookings w of None \<Rightarrow> [] | Some bs \<Rightarrow> bs).
                   {v. booking_userId b = Some v \<and> truthy v})"
proof -
  from assms obtain s where s: "run Date ws = Inr s" "r = report_of s"
    by (auto simp: processAnalytics_Inr)
  from run_allUniqueUsers[OF s(1)]
  have "length (allUniqueUsers s) = card (users_of ws)"
    by (metis distinct_card)
  then show ?thesis
    by (simp add: s(2) report_of_def summary_of_def users_of_eq)
qed

theorem uniqueParticipants_distinct_users_witness:
  "\<exists>r. processAnalytics localDate ex_users = Inr r
       \<and> summary.uniqueParticipants (summary r) = 2
       \<and> (\<Sum>w\<leftarrow>ex_users. length (userIds w)) = 4"
proof -
  obtain r where r: "processAnalytics localDate ex_users = Inr r"
    using processAnalytics_valid[OF ex_valid(2)] by blast
  have ids: "map userIds ex_users = [[IdNum 7, IdNum 9], [IdNum 7, IdNum 9]]"
    by (simp add: userIds_def ex_users_def session_def booking_of_def
          booking_userId_def id_or_def truthy_def)
  have "users_of ex_users = \<Union> (set ` set (map userIds ex_users))"
    by (simp add: users_of_def)
  then have "users_of ex_users = {IdNum 7, IdNum 9}"
    unfolding ids by simp
  then have "card (users_of ex_users) = 2"
    by simp
  moreover have "(\<Sum>w\<leftarrow>ex_users. length (userIds w)) = sum_list (map length (map userIds ex_users))"
    by (simp add: o_def)
  then have "(\<Sum>w\<leftarrow>ex_users. length (userIds w)) = 4"
    unfolding ids by simp
  ultimately show ?thesis
    using uniqueParticipants_distinct_users[OF r, folded users_of_eq] r
    by simp
qed

subsection \<open>Daily trend\<close>




subsection \<open>Instructors\<close>

lemma instructor_stat_name [simp]: "instructorBucket.name (instructor_stat k ws) = k"
  by (simp add: instructor_stat_def instructor_bucket_def instructorBucket.defs
        instructorStat.defs Let_def)





subsection \<open>Sessions without a start time\<close>

text \<open>
  C1. \<open>processAnalytics\<close> is to return a report for every sequence of session objects,
  whichever of their fields are absent. It does not: the body reads
  \<open>w.startTime.split(' ')\<close> without a default, so a session without \<open>startTime\<close> throws
  \<open>TypeError\<close>, whatever the engine's \<open>Date\<close> does, although capacity, type, staff and
  bookings are absent-tolerant.
\<close>

theorem absent_startTime_throws:
  "processAnalytics Date ex_no_startTime = Inl TypeError"
  by (simp add: ex_no_startTime_def processAnalytics_def step_def Let_def)

text \<open>
  An input is processed without exception exactly when every session has a \<open>startTime\<close>
  that the engine parses to a valid date.
\<close>

lemma processAnalytics_total_iff:
  "(\<exists>r. processAnalytics Date ws = Inr r) \<longleftrightarrow> list_all (valid Date) ws"
proof
  assume "\<exists>r. processAnalytics Date ws = Inr r"
  then show "list_all (valid Date) ws"
    by (auto simp: processAnalytics_Inr dest: run_valid)
next
  assume "list_all (valid Date) ws"
  then show "\<exists>r. processAnalytics Date ws = Inr r"
    by (rule processAnalytics_valid)
qed

lemma run_filter_byInstructor:
  "run Date ws = Inr s \<Longrightarrow>
   \<exists>s'. run Date (filter (\<lambda>w. instructors w \<noteq> []) ws) = Inr s'
        \<and> state.byInstructor s' = state.byInstructor s"
proof (induction ws arbitrary: s rule: rev_induct)
  case Nil
  then show ?case by simp
next
  case (snoc w ws)
  from snoc.prems obtain s0 where r: "run Date ws = Inr s0" "step Date w s0 = Inr s"
    "length (byDayOfWeek s0) = 7" by (rule run_snoc_Inr)
  from snoc.IH[OF r(1)] obtain s0' where
    s0': "run Date (filter (\<lambda>w. instructors w \<noteq> []) ws) = Inr s0'"
    "state.byInstructor s0' = state.byInstructor s0" by blast
  show ?case
  proof (cases "instructors w = []")
    case True
    with s0' step_byInstructor[OF r(2,3)] show ?thesis by simp
  next
    case False
    from run_valid[OF snoc.prems] have "valid Date w" by simp
    from step_valid[OF this run_length_days[OF s0'(1)]]
    obtain s' where s': "step Date w s0' = Inr s'" by blast
    from step_byInstructor[OF s' run_length_days[OF s0'(1)]] step_byInstructor[OF r(2,3)] s0'(2)
    have "state.byInstructor s' = state.byInstructor s" by simp
    with False s' s0'(1) show ?thesis by (simp add: run_snoc)
  qed
qed

text \<open>
  C10. A session whose \<open>staffs\<close> is absent or empty contributes to no \<open>byInstructor\<close>
  bucket: dropping all such sessions from the input leaves \<open>byInstructor\<close> as it is, and
  there is no \<open>'Unknown'\<close> bucket for them. So \<open>byInstructor\<close> can be empty for a
  non-empty input, and the \<open>classes\<close> of its entries can add up to more and to less than
  \<open>summary.totalClasses\<close>.
\<close>

theorem no_bucket_without_instructor:
  "(\<forall>r. processAnalytics Date ws = Inr r \<longrightarrow>
      (\<exists>r'. processAnalytics Date
               (filter (\<lambda>w. staffs w \<noteq> None \<and> staffs w \<noteq> Some []) ws) = Inr r'
            \<and> report.byInstructor r' = report.byInstructor r))
   \<and> (\<exists>r. processAnalytics localDate ex_no_staff = Inr r \<and> ex_no_staff \<noteq> []
          \<and> report.byInstructor r = [])
   \<and> (\<exists>r. processAnalytics localDate ex_two_staff = Inr r
          \<and> (\<Sum>e\<leftarrow>report.byInstructor r. bucket.classes e)
              > summary.totalClasses (summary r))
   \<and> (\<exists>r. processAnalytics localDate ex_one_of_three = Inr r
          \<and> (\<Sum>e\<leftarrow>report.byInstructor r. bucket.classes e)
              < summary.totalClasses (summary r))"
proof (intro conjI allI impI)
  fix r
  assume "processAnalytics Date ws = Inr r"
  then obtain s where s: "run Date ws = Inr s" "r = report_of s"
    by (auto simp: processAnalytics_Inr)
  have f: "(\<lambda>w. staffs w \<noteq> None \<and> staffs w \<noteq> Some []) = (\<lambda>w. instructors w \<noteq> [])"
    by (auto simp: instructors_def fun_eq_iff split: option.splits)
  from run_filter_byInstructor[OF s(1)] obtain s' where
    s': "run Date (filter (\<lambda>w. instructors w \<noteq> []) ws) = Inr s'"
    "state.byInstructor s' = state.byInstructor s" by blast
  have "report.byInstructor (report_of s') = report.byInstructor (report_of s)"
    by (simp add: report_of_def instructorStats_def s'(2))
  with s'(1) show "\<exists>r'. processAnalytics Date
               (filter (\<lambda>w. staffs w \<noteq> None \<and> staffs w \<noteq> Some []) ws) = Inr r'
            \<and> report.byInstructor r' = report.byInstructor r"
    unfolding f by (auto simp: processAnalytics_Inr s(2))
next
  show "\<exists>r. processAnalytics localDate ex_no_staff = Inr r \<and> ex_no_staff \<noteq> []
          \<and> report.byInstructor r = []"
    by (simp add: ex_no_staff_def eval_defs)
next
  show "\<exists>r. processAnalytics localDate ex_two_staff = Inr r
          \<and> (\<Sum>e\<leftarrow>report.byInstructor r. bucket.classes e)
              > summary.totalClasses (summary r)"
    by (simp add: ex_two_staff_def staff_of_def eval_defs)
next
  show "\<exists>r. processAnalytics localDate ex_one_of_three = Inr r
          \<and> (\<Sum>e\<leftarrow>report.byInstructor r. bucket.classes e)
              < summary.totalClasses (summary r)"
    by (simp add: ex_one_of_three_def staff_of_def eval_defs)
qed

theorem no_bucket_without_instructor_witness:
  "\<exists>r r'. processAnalytics localDate ex_one_of_three = Inr r
     \<and> processAnalytics localDate
          (filter (\<lambda>w. staffs w \<noteq> None \<and> staffs w \<noteq> Some []) ex_one_of_three) = Inr r'
     \<and> length (filter (\<lambda>w. staffs w \<noteq> None \<and> staffs w \<noteq> Some []) ex_one_of_three) = 1
     \<and> report.byInstructor r' = report.byInstructor r"
proof -
  have "list_all (valid localDate) ex_one_of_three"
    by (simp add: ex_one_of_three_def session_def valid_def localDate_examples typeName_def
          str_or_def proto_key_def)
  then obtain r where r: "processAnalytics localDate ex_one_of_three = Inr r"
    using processAnalytics_valid by blast
  from no_bucket_without_instructor[of localDate ex_one_of_three, THEN conjunct1, rule_format,
      OF r]
  obtain r' where "processAnalytics localDate
          (filter (\<lambda>w. staffs w \<noteq> None \<and> staffs w \<noteq> Some []) ex_one_of_three) = Inr r'"
    "report.byInstructor r' = report.byInstructor r" by blast
  moreover have
    "length (filter (\<lambda>w. staffs w \<noteq> None \<and> staffs w \<noteq> Some []) ex_one_of_three) = 1"
    by (simp add: ex_one_of_three_def session_def)
  ultimately show ?thesis using r by blast
qed

subsection \<open>Shape of the weekday and hour lists\<close>

lemma upt_0_7: "[0 ..< 7] = [0, 1, 2, 3, 4, 5, 6 :: nat]"
  by (simp add: upt_conv_Cons)

lemma upt_5_23:
  "[5 ..< 23] = [5, 6, 7, 8, 9, 10, 11, 12, 13, 14, 15, 16, 17, 18, 19, 20, 21, 22 :: nat]"
  by (simp add: upt_conv_Cons)

lemma zip_dayNames:
  "zip dayNames [0 ..< length dayNames]
     = [(''Sunday'', 0), (''Monday'', 1), (''Tuesday'', 2), (''Wednesday'', 3),
        (''Thursday'', 4), (''Friday'', 5), (''Saturday'', 6)]"
  by (simp add: dayNames_def upt_0_7)

lemma dayStats_shape:
  "map day (dayStats s)
     = [''Sunday'', ''Monday'', ''Tuesday'', ''Wednesday'', ''Thursday'', ''Friday'',
        ''Saturday'']"
  "map dayIndex (dayStats s) = [0, 1, 2, 3, 4, 5, 6]"
  "length (dayStats s) = 7"
  by (simp_all add: dayStats_def zip_dayNames Let_def)

lemma hourStats_shape:
  "map hour (hourStats s) = [5 ..< 23]"
  "length (hourStats s) = 18"
  by (simp_all add: hourStats_def o_def Let_def)

lemma empty_summary:
  "summary.totalClasses (summary_of init) = 0"
  "overallAttendanceRate (summary_of init) = Num0"
  "avgPerClass (summary_of init) = Num0"
  "fullyBookedRate (summary_of init) = Num0"
  "emptyRate (summary_of init) = Num0"
  by (simp_all add: summary_of_def init_def pct_def avg_def)

lemma empty_lists:
  "typeStats init = []" "instructorStats init = []" "dailyTrend_of init = []"
  by (simp_all add: typeStats_def instructorStats_def dailyTrend_of_def init_def)

lemma empty_dayStats:
  "list_all (\<lambda>e. dayStat.classes e = 0 \<and> dayStat.avgAttendance e = Num0
                    \<and> dayStat.attendanceRate e = Num0) (dayStats init)"
  by (simp add: dayStats_def zip_dayNames init_def pct_def avg_def Let_def)

lemma empty_hourStats:
  "list_all (\<lambda>e. hourStat.classes e = 0 \<and> hourStat.avgAttendance e = Num0
                    \<and> hourStat.attendanceRate e = Num0) (hourStats init)"
  by (simp add: hourStats_def init_def zero_bucket_def pct_def avg_def Let_def list_all_iff)

text \<open>
  C4. Whenever a report is returned, \<open>byDay\<close> has exactly the seven entries Sunday to
  Saturday in this order and \<open>byHour\<close> exactly the eighteen entries of the hours 5 to 22.
  On the empty input the report is returned, with \<open>summary.totalClasses = 0\<close>, every rate
  the number \<open>0\<close>, \<open>byType\<close>, \<open>byInstructor\<close> and \<open>dailyTrend\<close> empty, and every entry of
  \<open>byDay\<close> and \<open>byHour\<close> all zero.
\<close>

theorem byDay_byHour_fixed_shape:
  "(\<forall>r. processAnalytics Date ws = Inr r \<longrightarrow>
      map day (byDay r)
        = [''Sunday'', ''Monday'', ''Tuesday'', ''Wednesday'', ''Thursday'', ''Friday'',
           ''Saturday'']
      \<and> map dayIndex (byDay r) = [0, 1, 2, 3, 4, 5, 6]
      \<and> map hour (report.byHour r)
          = [5, 6, 7, 8, 9, 10, 11, 12, 13, 14, 15, 16, 17, 18, 19, 20, 21, 22]
      \<and> length (byDay r) = 7 \<and> length (report.byHour r) = 18)
   \<and> (\<exists>r. processAnalytics Date [] = Inr r
          \<and> summary.totalClasses (summary r) = 0
          \<and> overallAttendanceRate (summary r) = Num0
          \<and> avgPerClass (summary r) = Num0
          \<and> fullyBookedRate (summary r) = Num0
          \<and> emptyRate (summary r) = Num0
          \<and> report.byType r = [] \<and> report.byInstructor r = [] \<and> dailyTrend r = []
          \<and> length (byDay r) = 7 \<and> length (report.byHour r) = 18
          \<and> list_all (\<lambda>e. dayStat.classes e = 0 \<and> dayStat.avgAttendance e = Num0
                            \<and> dayStat.attendanceRate e = Num0) (byDay r)
          \<and> list_all (\<lambda>e. hourStat.classes e = 0 \<and> hourStat.avgAttendance e = Num0
                            \<and> hourStat.attendanceRate e = Num0) (report.byHour r))"
proof (intro conjI allI impI)
  fix r
  assume "processAnalytics Date ws = Inr r"
  then obtain s where s: "run Date ws = Inr s" "r = report_of s"
    by (auto simp: processAnalytics_Inr)
  show "map day (byDay r)
        = [''Sunday'', ''Monday'', ''Tuesday'', ''Wednesday'', ''Thursday'', ''Friday'',
           ''Saturday'']"
    by (simp add: s(2) report_of_def dayStats_shape)
  show "map dayIndex (byDay r) = [0, 1, 2, 3, 4, 5, 6]"
    by (simp add: s(2) report_of_def dayStats_shape)
  show "map hour (report.byHour r)
          = [5, 6, 7, 8, 9, 10, 11, 12, 13, 14, 15, 16, 17, 18, 19, 20, 21, 22]"
    by (simp add: s(2) report_of_def hourStats_shape upt_5_23)
  show "length (byDay r) = 7"
    by (simp add: s(2) report_of_def dayStats_shape)
  show "length (report.byHour r) = 18"
    by (simp add: s(2) report_of_def hourStats_shape)
next
  have r: "processAnalytics Date [] = Inr (report_of init)"
    by (simp add: processAnalytics_def)
  have "summary.totalClasses (summary (report_of init)) = 0"
    "overallAttendanceRate (summary (report_of init)) = Num0"
    "avgPerClass (summary (report_of init)) = Num0"
    "fullyBookedRate (summary (report_of init)) = Num0"
    "emptyRate (summary (report_of init)) = Num0"
    "report.byType (report_of init) = []"
    "report.byInstructor (report_of init) = []"
    "dailyTrend (report_of init) = []"
    "length (byDay (report_of init)) = 7"
    "length (report.byHour (report_of init)) = 18"
    "list_all (\<lambda>e. dayStat.classes e = 0 \<and> dayStat.avgAttendance e = Num0
                            \<and> dayStat.attendanceRate e = Num0) (byDay (report_of init))"
    "list_all (\<lambda>e. hourStat.classes e = 0 \<and> hourStat.avgAttendance e = Num0
                            \<and> hourStat.attendanceRate e = Num0) (report.byHour (report_of init))"
    by (simp_all only: report_of_def report.select_convs empty_summary empty_lists
          dayStats_shape hourStats_shape empty_dayStats empty_hourStats)
  with r show "\<exists>r. processAnalytics Date [] = Inr r
          \<and> summary.totalClasses (summary r) = 0
          \<and> overallAttendanceRate (summary r) = Num0
          \<and> avgPerClass (summary r) = Num0
          \<and> fullyBookedRate (summary r) = Num0
          \<and> emptyRate (summary r) = Num0
          \<and> report.byType r = [] \<and> report.byInstructor r = [] \<and> dailyTrend r = []
          \<and> length (byDay r) = 7 \<and> length (report.byHour r) = 18
          \<and> list_all (\<lambda>e. dayStat.classes e = 0 \<and> dayStat.avgAttendance e = Num0
                            \<and> dayStat.attendanceRate e = Num0) (byDay r)
          \<and> list_all (\<lambda>e. hourStat.classes e = 0 \<and> hourStat.avgAttendance e = Num0
                            \<and> hourStat.attendanceRate e = Num0) (report.byHour r)"
    by (intro exI[of _ "report_of init"] conjI)
qed

theorem byDay_byHour_fixed_shape_witness:
  "\<exists>r. processAnalytics localDate ex_totals = Inr r
     \<and> map day (byDay r)
        = [''Sunday'', ''Monday'', ''Tuesday'', ''Wednesday'', ''Thursday'', ''Friday'',
           ''Saturday'']
     \<and> map hour (report.byHour r)
          = [5, 6, 7, 8, 9, 10, 11, 12, 13, 14, 15, 16, 17, 18, 19, 20, 21, 22]
     \<and> length (byDay r) = 7 \<and> length (report.byHour r) = 18"
proof -
  have "list_all (valid localDate) ex_totals"
    by (simp add: ex_totals_def session_def valid_def localDate_examples typeName_def
          str_or_def proto_key_def)
  then obtain r where r: "processAnalytics localDate ex_totals = Inr r"
    using processAnalytics_valid by blast
  note t = byDay_byHour_fixed_shape[of localDate ex_totals, THEN conjunct1, rule_format, OF r]
  from r t show ?thesis
    by (intro exI[of _ r] conjI) (elim conjE, assumption)+
qed

subsection \<open>Texts with one decimal place\<close>

lemma digit_cases:
  "d < 10 \<Longrightarrow>
   d = 0 \<or> d = 1 \<or> d = 2 \<or> d = 3 \<or> d = 4 \<or> d = 5 \<or> d = 6 \<or> d = 7 \<or> d = 8 \<or> d = (9::nat)"
  by arith

lemma is_digit_digit: "is_digit (digit d)"
proof -
  have "d mod 10 < 10" by simp
  from digit_cases[OF this] show ?thesis
    by (elim disjE) (simp_all add: digit_def is_digit_def)
qed

lemma digit_val_digit: "d < 10 \<Longrightarrow> digit_val (digit d) = d"
  by (drule digit_cases) (elim disjE, simp_all add: digit_def digit_val_def)

lemma show_nat_nonempty: "show_nat n \<noteq> []"
  by (induction n rule: show_nat.induct) (subst show_nat.simps, simp)

lemma show_nat_digits: "list_all is_digit (show_nat n)"
  by (induction n rule: show_nat.induct) (subst show_nat.simps, simp add: is_digit_digit)

lemma digits_val_snoc: "digits_val (s @ [c]) = digits_val s * 10 + digit_val c"
  by (simp add: digits_val_def)

lemma digits_val_show_nat: "digits_val (show_nat n) = n"
proof (induction n rule: show_nat.induct)
  case (1 n)
  show ?case
  proof (cases "n < 10")
    case True
    then show ?thesis
      by (subst show_nat.simps) (simp add: digits_val_def digit_val_digit)
  next
    case False
    with 1 have "digits_val (show_nat (n div 10)) = n div 10" by simp
    with False show ?thesis
      by (subst show_nat.simps) (simp add: digits_val_snoc digit_val_digit)
  qed
qed

lemma digits_val_single: "digits_val [c] = digit_val c"
  by (simp add: digits_val_def)

lemma not_digit_point: "\<not> is_digit CHR ''.''" "\<not> is_digit CHR ''-''"
  by (simp_all add: is_digit_def)

lemma parseDec_fixed:
  assumes "b < 10"
  shows "parseDec (show_nat a @ CHR ''.'' # [digit b]) = of_nat a + of_nat b / 10"
proof -
  have d: "\<And>x. x \<in> set (show_nat a) \<Longrightarrow> is_digit x"
    using show_nat_digits[of a] by (simp add: list_all_iff)
  have t: "takeWhile is_digit (show_nat a @ CHR ''.'' # [digit b]) = show_nat a"
    using d by (simp add: takeWhile_append2 not_digit_point)
  have r: "dropWhile is_digit (show_nat a @ CHR ''.'' # [digit b]) = CHR ''.'' # [digit b]"
    using d by (simp add: dropWhile_append2 not_digit_point)
  show ?thesis
    unfolding parseDec_def t r
    by (simp add: is_digit_digit digits_val_show_nat digits_val_single digit_val_digit[OF assms])
qed

lemma show_nat_hd: "\<exists>c cs. show_nat n = c # cs \<and> is_digit c"
  using show_nat_nonempty[of n] show_nat_digits[of n] by (cases "show_nat n") auto

lemma decimal_toFixed1:
  "decimal (toFixed1 x)
     = (if x < 0 then - 1 else 1) * of_nat (nat \<lfloor>\<bar>x\<bar> * 10 + 1 / 2\<rfloor>) / 10"
proof -
  define n where "n = nat \<lfloor>\<bar>x\<bar> * 10 + 1 / 2\<rfloor>"
  obtain c cs where c: "show_nat (n div 10) = c # cs" "is_digit c"
    using show_nat_hd by blast
  then have cm: "c \<noteq> CHR ''-''" using not_digit_point(2) by auto
  have v: "parseDec (show_nat (n div 10) @ CHR ''.'' # [digit (n mod 10)])
             = of_nat (n div 10) + of_nat (n mod 10) / 10"
    by (rule parseDec_fixed) simp
  have "(of_nat n :: rat) = of_nat (n div 10 * 10 + n mod 10)"
    by simp
  also have "\<dots> = of_nat (n div 10) * 10 + of_nat (n mod 10)"
    by (simp only: of_nat_add of_nat_mult of_nat_numeral)
  finally have "(of_nat n :: rat) / 10 = (of_nat (n div 10) * 10 + of_nat (n mod 10)) / 10"
    by simp
  then have v': "(of_nat (n div 10) :: rat) + of_nat (n mod 10) / 10 = of_nat n / 10"
    by (simp add: add_divide_distrib)
  show ?thesis
  proof (cases "x < 0")
    case True
    then have "toFixed1 x = CHR ''-'' # (show_nat (n div 10) @ CHR ''.'' # [digit (n mod 10)])"
      by (simp add: toFixed1_def n_def Let_def)
    then show ?thesis
      using True v v' by (simp add: decimal_def n_def)
  next
    case False
    then have "toFixed1 x = show_nat (n div 10) @ CHR ''.'' # [digit (n mod 10)]"
      by (simp add: toFixed1_def n_def Let_def)
    then have "toFixed1 x = c # (cs @ CHR ''.'' # [digit (n mod 10)])"
      by (simp add: c(1))
    moreover have "parseDec (c # (cs @ CHR ''.'' # [digit (n mod 10)])) = of_nat n / 10"
      using v v' by (simp add: c(1))
    ultimately show ?thesis
      using False cm by (simp add: decimal_def n_def)
  qed
qed

text \<open>The text of \<open>toFixed(1)\<close> denotes a number within \<open>0.05\<close> of the value.\<close>

lemma toFixed1_rounds: "\<bar>decimal (toFixed1 x) - x\<bar> \<le> 1 / 20"
proof -
  define a where "a = \<bar>x\<bar>"
  define k where "k = \<lfloor>a * 10 + 1 / 2\<rfloor>"
  have "0 \<le> a * 10 + 1 / 2" by (simp add: a_def)
  then have k0: "0 \<le> k" by (simp add: k_def)
  have lo: "of_int k \<le> a * 10 + 1 / 2"
    unfolding k_def by (rule of_int_floor_le)
  have hi: "a * 10 + 1 / 2 < of_int k + 1"
    unfolding k_def using floor_correct[of "a * 10 + 1 / 2"] by simp
  have r: "\<bar>(of_int k :: rat) / 10 - a\<bar> \<le> 1 / 20"
    using lo hi by (intro abs_leI) linarith+
  have n: "(of_nat (nat k) :: rat) = of_int k"
    using k0 by simp
  have p: "decimal (toFixed1 x) = (if x < 0 then - 1 else 1) * of_int k / 10"
    unfolding decimal_toFixed1 a_def[symmetric] k_def[symmetric] n ..
  show ?thesis
  proof (cases "x < 0")
    case True
    then have e: "decimal (toFixed1 x) - x = - (of_int k / 10 - a)"
      unfolding p by (simp add: a_def)
    show ?thesis unfolding e abs_minus_cancel by (rule r)
  next
    case False
    then have e: "decimal (toFixed1 x) - x = of_int k / 10 - a"
      unfolding p by (simp add: a_def)
    show ?thesis unfolding e by (rule r)
  qed
qed

lemma one_decimal_toFixed1: "one_decimal (toFixed1 x)"
proof -
  define n where "n = nat \<lfloor>\<bar>x\<bar> * 10 + 1 / 2\<rfloor>"
  define t where "t = show_nat (n div 10) @ CHR ''.'' # [digit (n mod 10)]"
  obtain c cs where c: "show_nat (n div 10) = c # cs" "is_digit c"
    using show_nat_hd by blast
  then have cm: "c \<noteq> CHR ''-''" using not_digit_point(2) by auto
  have len: "length t = length (show_nat (n div 10)) + 2" by (simp add: t_def)
  have t1: "3 \<le> length t" using show_nat_nonempty[of "n div 10"]
    by (cases "show_nat (n div 10)") (simp_all add: t_def)
  have t2: "list_all is_digit (take (length t - 2) t)"
    unfolding len by (simp add: t_def show_nat_digits)
  have t3: "t ! (length t - 2) = CHR ''.''"
    unfolding len by (simp add: t_def nth_append)
  have t4: "is_digit (t ! (length t - 1))"
    unfolding len by (simp add: t_def nth_append is_digit_digit)
  have s: "toFixed1 x = (if x < 0 then CHR ''-'' # t else t)"
    by (simp add: toFixed1_def n_def t_def Let_def)
  have "(case toFixed1 x of c # u \<Rightarrow> if c = CHR ''-'' then u else toFixed1 x | [] \<Rightarrow> toFixed1 x) = t"
    unfolding s using cm by (simp add: t_def c(1))
  then show ?thesis
    unfolding one_decimal_def Let_def using t1 t2 t3 t4 by simp
qed

subsection \<open>Rates\<close>

lemma run_dayStats:
  assumes "run Date ws = Inr s"
  shows "dayStats s
           = map (\<lambda>(nm, i). day_stat Date nm i ws) (zip dayNames [0 ..< length dayNames])"
proof -
  have "i < 7" if "(nm, i) \<in> set (zip dayNames [0 ..< length dayNames])" for nm i
  proof -
    have "i \<in> set [0 ..< length dayNames]" by (rule set_zip_rightD[OF that])
    then have "i < length dayNames" by simp
    moreover have "length dayNames = 7" by (simp add: dayNames_def)
    ultimately show ?thesis by simp
  qed
  then show ?thesis
    unfolding dayStats_def
    by (intro map_cong refl)
       (auto simp: run_byDay[OF assms] day_stat_def Let_def foldl_add_map o_def dayEntry_of_def)
qed

lemma run_hourStats:
  assumes "run Date ws = Inr s"
  shows "hourStats s = map (\<lambda>h. hour_stat Date h ws) [5 ..< 23]"
proof -
  have "(case map_of (state.byHour s) h of None \<Rightarrow> zero_bucket | Some d \<Rightarrow> d)
          = sum_bucket (filter (\<lambda>w. getHours Date w = Some h) ws)" for h
    by (simp add: run_byHour[OF assms] zero_bucket_eq filter_key_empty)
  then show ?thesis
    unfolding hourStats_def
    by (simp add: hour_stat_def sum_bucket_def Let_def)
qed

lemma ratio_eq: "ratio b sp = (if sp > 0 then percentage b sp else 0)"
  by (simp add: ratio_def percentage_def)

lemma text_is_rate: "n > 0 \<Longrightarrow> is_rate (Text (toFixed1 q)) q n"
  using toFixed1_rounds[of q] one_decimal_toFixed1[of q] by (simp add: is_rate_def)

lemma pct_is_rate: "is_rate (pct a n) (percentage a n) n"
  by (simp add: pct_def percentage_def text_is_rate) (simp add: is_rate_def)

lemma summary_rates:
  "is_rate (overallAttendanceRate (summary_of s))
     (percentage (summary.totalBooked (summary_of s)) (summary.totalCapacity (summary_of s)))
     (summary.totalCapacity (summary_of s))"
  "is_rate (fullyBookedRate (summary_of s))
     (percentage (int (summary.fullyBookedClasses (summary_of s)))
                 (int (summary.totalClasses (summary_of s))))
     (int (summary.totalClasses (summary_of s)))"
  "is_rate (emptyRate (summary_of s))
     (percentage (int (summary.emptyClasses (summary_of s)))
                 (int (summary.totalClasses (summary_of s))))
     (int (summary.totalClasses (summary_of s)))"
  by (simp_all add: summary_of_def pct_is_rate)

lemma typeStats_rates:
  assumes "run Date ws = Inr s"
  shows "list_all (\<lambda>e. let grp = filter (\<lambda>w. typeName w = typeBucket.name e) ws
                       in is_rate (typeStat.attendanceRate e)
                            (percentage (sum_list (map booked_of grp)) (sum_list (map space_of grp)))
                            (sum_list (map space_of grp))
                          \<and> is_rate (avgBookingRate e) (mean_percentage grp) (int (length grp)))
           (typeStats s)"
proof -
  have "is_rate (typeStat.attendanceRate e)
          (percentage (sum_list (map booked_of (filter (\<lambda>w. typeName w = typeBucket.name e) ws)))
                      (sum_list (map space_of (filter (\<lambda>w. typeName w = typeBucket.name e) ws))))
          (sum_list (map space_of (filter (\<lambda>w. typeName w = typeBucket.name e) ws)))
        \<and> is_rate (avgBookingRate e)
            (mean_percentage (filter (\<lambda>w. typeName w = typeBucket.name e) ws))
            (int (length (filter (\<lambda>w. typeName w = typeBucket.name e) ws)))"
    if "e \<in> set (typeStats s)" for e
  proof -
    from typeStats_member[OF assms that]
    obtain k where k: "k \<in> typeName ` set ws" and eq: "e = type_stat k ws"
      and nm: "typeBucket.name e = k" by blast
    define grp where "grp = filter (\<lambda>w. typeName w = k) ws"
    have grp: "0 < int (length grp)"
      using filter_key_nonempty[OF k] by (simp add: grp_def)
    have a: "typeStat.attendanceRate (type_stat k ws)
               = pct (sum_list (map booked_of grp)) (sum_list (map space_of grp))"
      by (simp add: type_stat_def typeBucket.defs typeStat.defs Let_def grp_def)
    have b: "avgBookingRate (type_stat k ws) = Text (toFixed1 (mean_percentage grp))"
      by (simp add: type_stat_def typeBucket.defs typeStat.defs Let_def grp_def
            mean_percentage_def ratio_eq)
    have "is_rate (typeStat.attendanceRate (type_stat k ws))
            (percentage (sum_list (map booked_of grp)) (sum_list (map space_of grp)))
            (sum_list (map space_of grp))"
      unfolding a by (rule pct_is_rate)
    moreover have "is_rate (avgBookingRate (type_stat k ws)) (mean_percentage grp)
                     (int (length grp))"
      unfolding b by (rule text_is_rate[OF grp])
    ultimately show ?thesis
      unfolding nm grp_def[symmetric] unfolding eq by (intro conjI)
  qed
  then show ?thesis
    by (simp add: list_all_iff Let_def)
qed

lemma instructorStats_rates:
  "list_all (\<lambda>e. is_rate (instructorStat.attendanceRate e)
                    (percentage (bucket.totalBooked e) (bucket.totalCapacity e))
                    (bucket.totalCapacity e))
     (instructorStats s)"
  by (simp add: instructorStats_def list_all_iff instructorBucket.defs instructorStat.defs
        pct_is_rate)

lemma dailyTrend_rates:
  "list_all (\<lambda>e. is_rate (trendEntry.attendanceRate e)
                    (percentage (bucket.totalBooked e) (bucket.totalCapacity e))
                    (bucket.totalCapacity e))
     (dailyTrend_of s)"
  by (simp add: dailyTrend_of_def list_all_iff Let_def pct_is_rate)

lemma dayStats_rates:
  assumes "run Date ws = Inr s"
  shows "list_all (\<lambda>e. let grp = filter (\<lambda>w. getDay Date w = Some (dayIndex e)) ws
                       in is_rate (dayStat.attendanceRate e)
                            (percentage (sum_list (map booked_of grp)) (sum_list (map space_of grp)))
                            (sum_list (map space_of grp)))
           (dayStats s)"
  unfolding run_dayStats[OF assms]
  by (auto simp: list_all_iff day_stat_def Let_def pct_is_rate)

lemma hourStats_rates:
  assumes "run Date ws = Inr s"
  shows "list_all (\<lambda>e. let grp = filter (\<lambda>w. getHours Date w = Some (hour e)) ws
                       in is_rate (hourStat.attendanceRate e)
                            (percentage (sum_list (map booked_of grp)) (sum_list (map space_of grp)))
                            (sum_list (map space_of grp)))
           (hourStats s)"
  unfolding run_hourStats[OF assms]
  by (auto simp: list_all_iff hour_stat_def Let_def pct_is_rate)

text \<open>
  The rounding is that of the binary64 value, which can differ from the rounding of the
  exact quotient: \<open>23 / 80 * 100\<close> is \<open>28.75\<close> exactly and \<open>28.749999999999996\<close> in
  binary64, written \<open>"28.7"\<close>; \<open>3 / 20\<close> is written \<open>"0.1"\<close>.
\<close>

lemma binary64_examples:
  "fmul (fdiv 23 80) 100 = 8092405580431359 / 281474976710656"
  "toFixed1 (fmul (fdiv 23 80) 100) = ''28.7''"
  "toFixed1 (fdiv 3 20) = ''0.1''"
  "toFixed1 (fmul (fdiv 10 15) 100) = ''66.7''"
  by (simp_all add: toFixed1_def show_nat.simps digit_def float_defs)

text \<open>
  C3. Every rate field of the report --- the three rates of \<open>summary\<close>, \<open>attendanceRate\<close>
  in \<open>byType\<close>, \<open>byDay\<close>, \<open>byHour\<close>, \<open>byInstructor\<close> and \<open>dailyTrend\<close>, and
  \<open>avgBookingRate\<close> in \<open>byType\<close> --- is the number \<open>0\<close> when its denominator is zero
  and otherwise a text with one decimal place that reads as the percentage rounded to that
  place; such a text is never \<open>NaN\<close> or \<open>Infinity\<close>. The percentage is the binary64
  number that the program computes: \<open>booked / capacity * 100\<close> of the totals of the entry,
  and for \<open>avgBookingRate\<close> the mean of the percentages of the sessions of the type. The
  denominators of \<open>byType\<close>, \<open>byDay\<close> and \<open>byHour\<close> are the summed capacities of the
  sessions of that type, weekday or hour, that of \<open>avgBookingRate\<close> is their number.
\<close>

theorem rates_zero_or_one_decimal:
  assumes "processAnalytics Date ws = Inr r"
  shows "is_rate (overallAttendanceRate (summary r))
           (percentage (summary.totalBooked (summary r)) (summary.totalCapacity (summary r)))
           (summary.totalCapacity (summary r))
       \<and> is_rate (fullyBookedRate (summary r))
           (percentage (int (summary.fullyBookedClasses (summary r)))
                       (int (summary.totalClasses (summary r))))
           (int (summary.totalClasses (summary r)))
       \<and> is_rate (emptyRate (summary r))
           (percentage (int (summary.emptyClasses (summary r)))
                       (int (summary.totalClasses (summary r))))
           (int (summary.totalClasses (summary r)))
       \<and> list_all (\<lambda>e. let grp = filter (\<lambda>w. typeName w = typeBucket.name e) ws
                       in is_rate (typeStat.attendanceRate e)
                            (percentage (sum_list (map booked_of grp))
                                        (sum_list (map space_of grp)))
                            (sum_list (map space_of grp))
                          \<and> is_rate (avgBookingRate e) (mean_percentage grp)
                              (int (length grp)))
           (report.byType r)
       \<and> list_all (\<lambda>e. let grp = filter (\<lambda>w. getDay Date w = Some (dayIndex e)) ws
                       in is_rate (dayStat.attendanceRate e)
                            (percentage (sum_list (map booked_of grp))
                                        (sum_list (map space_of grp)))
                            (sum_list (map space_of grp)))
           (byDay r)
       \<and> list_all (\<lambda>e. let grp = filter (\<lambda>w. getHours Date w = Some (hour e)) ws
                       in is_rate (hourStat.attendanceRate e)
                            (percentage (sum_list (map booked_of grp))
                                        (sum_list (map space_of grp)))
                            (sum_list (map space_of grp)))
           (report.byHour r)
       \<and> list_all (\<lambda>e. is_rate (instructorStat.attendanceRate e)
                           (percentage (bucket.totalBooked e) (bucket.totalCapacity e))
                           (bucket.totalCapacity e))
           (report.byInstructor r)
       \<and> list_all (\<lambda>e. is_rate (trendEntry.attendanceRate e)
                           (percentage (bucket.totalBooked e) (bucket.totalCapacity e))
                           (bucket.totalCapacity e))
           (dailyTrend r)"
proof -
  from assms obtain s where s: "run Date ws = Inr s" "r = report_of s"
    by (auto simp: processAnalytics_Inr)
  have sel: "summary r = summary_of s" "report.byType r = typeStats s" "byDay r = dayStats s"
    "report.byHour r = hourStats s" "report.byInstructor r = instructorStats s"
    "dailyTrend r = dailyTrend_of s"
    by (simp_all add: s(2) report_of_def)
  show ?thesis
    unfolding sel
    by (intro conjI summary_rates typeStats_rates[OF s(1)] dayStats_rates[OF s(1)]
          hourStats_rates[OF s(1)] instructorStats_rates dailyTrend_rates)
qed

lemma ex_one_of_three_report:
  "\<exists>r. processAnalytics localDate ex_one_of_three = Inr r
       \<and> overallAttendanceRate (summary r) = Text ''62.5''
       \<and> fullyBookedRate (summary r) = Text ''33.3''
       \<and> emptyRate (summary r) = Text ''0.0''
       \<and> summary.totalCapacity (summary r) = 32
       \<and> length (report.byType r) = 2 \<and> length (report.byInstructor r) = 1
       \<and> length (dailyTrend r) = 2"
  by (simp add: ex_one_of_three_def eval_defs)

theorem rates_zero_or_one_decimal_witness:
  "\<exists>r. processAnalytics localDate ex_one_of_three = Inr r
       \<and> summary.totalCapacity (summary r) = 32
       \<and> overallAttendanceRate (summary r) = Text ''62.5''
       \<and> is_rate (overallAttendanceRate (summary r))
           (percentage (summary.totalBooked (summary r)) (summary.totalCapacity (summary r)))
           (summary.totalCapacity (summary r))
       \<and> length (report.byType r) = 2
       \<and> list_all (\<lambda>e. let grp = filter (\<lambda>w. typeName w = typeBucket.name e) ex_one_of_three
                       in is_rate (typeStat.attendanceRate e)
                            (percentage (sum_list (map booked_of grp))
                                        (sum_list (map space_of grp)))
                            (sum_list (map space_of grp))
                          \<and> is_rate (avgBookingRate e) (mean_percentage grp)
                              (int (length grp)))
           (report.byType r)
       \<and> length (report.byInstructor r) = 1
       \<and> list_all (\<lambda>e. is_rate (instructorStat.attendanceRate e)
                           (percentage (bucket.totalBooked e) (bucket.totalCapacity e))
                           (bucket.totalCapacity e))
           (report.byInstructor r)
       \<and> length (dailyTrend r) = 2
       \<and> list_all (\<lambda>e. is_rate (trendEntry.attendanceRate e)
                           (percentage (bucket.totalBooked e) (bucket.totalCapacity e))
                           (bucket.totalCapacity e))
           (dailyTrend r)"
proof -
  from ex_one_of_three_report obtain r where
    r: "processAnalytics localDate ex_one_of_three = Inr r"
    and v: "overallAttendanceRate (summary r) = Text ''62.5''"
      "summary.totalCapacity (summary r) = 32"
      "length (report.byType r) = 2" "length (report.byInstructor r) = 1"
      "length (dailyTrend r) = 2"
    by (elim exE conjE)
  note t = rates_zero_or_one_decimal[OF r]
  from r v t show ?thesis
    by (intro exI[of _ r] conjI) (elim conjE, assumption)+
qed

subsection \<open>Permutations of the input\<close>

lemma perm_sum:
  fixes f :: "'a \<Rightarrow> 'b :: comm_monoid_add"
  assumes "mset xs' = mset xs"
  shows "sum_list (map f xs') = sum_list (map f xs)"
proof -
  have "sum_mset (mset (map f xs')) = sum_mset (mset (map f xs))"
    using assms by simp
  then show ?thesis by (simp only: sum_mset_sum_list)
qed

lemma perm_group:
  fixes f :: "'a \<Rightarrow> 'b :: comm_monoid_add"
  assumes "mset ws' = mset ws"
  shows "length (filter P ws') = length (filter P ws)"
    and "sum_list (map f (filter P ws')) = sum_list (map f (filter P ws))"
    and "mset (map g (filter P ws')) = mset (map g (filter P ws))"
    and "set (filter P ws') = set (filter P ws)"
proof -
  have m: "mset (filter P ws') = mset (filter P ws)"
    using assms by simp
  show "length (filter P ws') = length (filter P ws)"
    by (rule mset_eq_length[OF m])
  show "sum_list (map f (filter P ws')) = sum_list (map f (filter P ws))"
    by (rule perm_sum[OF m])
  show "mset (map g (filter P ws')) = mset (map g (filter P ws))"
    using m by simp
  show "set (filter P ws') = set (filter P ws)"
    by (rule mset_eq_setD[OF m])
qed

lemma perm_day_stat:
  "mset ws' = mset ws \<Longrightarrow> day_stat Date nm i ws' = day_stat Date nm i ws"
  by (simp add: day_stat_def Let_def perm_group(1)[of ws' ws] perm_group(2)[of ws' ws])

lemma perm_hour_stat:
  "mset ws' = mset ws \<Longrightarrow> hour_stat Date h ws' = hour_stat Date h ws"
  by (simp add: hour_stat_def Let_def perm_group(1)[of ws' ws] perm_group(2)[of ws' ws])

lemma perm_trend_entry:
  "mset ws' = mset ws \<Longrightarrow> trend_entry d ws' = trend_entry d ws"
  by (simp add: trend_entry_def Let_def perm_group(1)[of ws' ws] perm_group(2)[of ws' ws])

lemma perm_type_view:
  assumes "mset ws' = mset ws"
  shows "type_view (type_stat k ws') = type_view (type_stat k ws)"
proof -
  have "users_of_type k ws' = users_of_type k ws"
    unfolding users_of_type_def by (simp only: perm_group(4)[OF assms])
  then show ?thesis
    by (simp add: type_view_def type_stat_def type_bucket_def typeBucket.defs typeStat.defs
          Let_def perm_group(1)[OF assms] perm_group(2)[OF assms] assms)
qed

lemma perm_instructor_view:
  assumes "mset ws' = mset ws"
  shows "instructor_view (instructor_stat k ws') = instructor_view (instructor_stat k ws)"
  by (simp add: instructor_view_def instructor_stat_def instructor_bucket_def
        instructorBucket.defs instructorStat.defs Let_def occurrences_of_length
        occurrences_of_booked occurrences_of_space perm_sum[OF assms])

lemma perm_summary:
  assumes "mset ws' = mset ws" and "run Date ws = Inr s" and "run Date ws' = Inr s'"
  shows "summary_of s' = summary_of s"
proof -
  have "users_of ws' = users_of ws"
    using mset_eq_setD[OF assms(1)] by (simp add: users_of_def)
  with run_allUniqueUsers[OF assms(2)] run_allUniqueUsers[OF assms(3)]
  have "length (allUniqueUsers s') = length (allUniqueUsers s)"
    by (metis distinct_card)
  then show ?thesis
    using perm_group(1)[OF assms(1)] mset_eq_length[OF assms(1)]
    by (simp add: summary_of_def run_totals[OF assms(2)] run_totals[OF assms(3)]
          perm_sum[OF assms(1)])
qed

lemma sorted_mset_unique:
  fixes xs :: "'a :: linorder list"
  assumes "sorted xs" and "sorted ys" and "mset xs = mset ys"
  shows "xs = ys"
proof -
  have "sort ys = xs" by (rule properties_for_sort[OF assms(3) assms(1)])
  moreover have "sort ys = ys" by (rule sorted_sort_id[OF assms(2)])
  ultimately show ?thesis by simp
qed

lemma distinct_same_set_mset:
  "distinct xs \<Longrightarrow> distinct ys \<Longrightarrow> set xs = set ys \<Longrightarrow> mset xs = mset ys"
  by (simp add: set_eq_iff_mset_eq_distinct)

lemma perm_dailyTrend:
  assumes "mset ws' = mset ws" and "run Date ws = Inr s" and "run Date ws' = Inr s'"
  shows "dailyTrend_of s' = dailyTrend_of s"
proof -
  have "set (map fst (byDate s')) = set (map fst (byDate s))"
    using run_byDate_keys[OF assms(2)] run_byDate_keys[OF assms(3)] mset_eq_setD[OF assms(1)]
    by (simp add: date_keys_def)
  then have "mset (map fst (byDate s')) = mset (map fst (byDate s))"
    by (intro distinct_same_set_mset run_byDate_distinct[OF assms(2)]
          run_byDate_distinct[OF assms(3)])
  then have "mset (sort (map fst (byDate s'))) = mset (sort (map fst (byDate s)))"
    by simp
  then have "sort (map fst (byDate s')) = sort (map fst (byDate s))"
    by (intro sorted_mset_unique) simp_all
  then show ?thesis
    by (simp add: run_dailyTrend[OF assms(2)] run_dailyTrend[OF assms(3)]
          perm_trend_entry[OF assms(1)])
qed

lemma perm_typeStats:
  assumes "mset ws' = mset ws" and "run Date ws = Inr s" and "run Date ws' = Inr s'"
  shows "mset (map type_view (typeStats s')) = mset (map type_view (typeStats s))"
proof -
  have "set (map fst (state.byType s')) = set (map fst (state.byType s))"
    using run_byType_keys[OF assms(2)] run_byType_keys[OF assms(3)] mset_eq_setD[OF assms(1)]
    by simp
  then have k: "mset (map fst (state.byType s')) = mset (map fst (state.byType s))"
    by (intro distinct_same_set_mset run_byType_distinct[OF assms(2)]
          run_byType_distinct[OF assms(3)])
  have "mset (map type_view (typeStats s'))
          = image_mset (\<lambda>k. type_view (type_stat k ws')) (mset (map fst (state.byType s')))"
    by (simp add: run_typeStats[OF assms(3)] multiset.map_comp o_def)
  also have "\<dots> = image_mset (\<lambda>k. type_view (type_stat k ws)) (mset (map fst (state.byType s)))"
    by (simp only: k perm_type_view[OF assms(1)])
  also have "\<dots> = mset (map type_view (typeStats s))"
    by (simp add: run_typeStats[OF assms(2)] multiset.map_comp o_def)
  finally show ?thesis .
qed

lemma perm_instructorStats:
  assumes "mset ws' = mset ws" and "run Date ws = Inr s" and "run Date ws' = Inr s'"
  shows "mset (map instructor_view (instructorStats s'))
           = mset (map instructor_view (instructorStats s))"
proof -
  have "set (map fst (state.byInstructor s')) = set (map fst (state.byInstructor s))"
    using run_byInstructor_keys[OF assms(2)] run_byInstructor_keys[OF assms(3)]
      mset_eq_setD[OF assms(1)]
    by (simp add: bucket_names_def)
  then have k: "mset (map fst (state.byInstructor s')) = mset (map fst (state.byInstructor s))"
    by (intro distinct_same_set_mset run_byInstructor_distinct[OF assms(2)]
          run_byInstructor_distinct[OF assms(3)])
  have "mset (map instructor_view (instructorStats s'))
          = image_mset (\<lambda>k. instructor_view (instructor_stat k ws'))
              (mset (map fst (state.byInstructor s')))"
    by (simp add: run_instructorStats[OF assms(3)] multiset.map_comp o_def)
  also have "\<dots> = image_mset (\<lambda>k. instructor_view (instructor_stat k ws))
                      (mset (map fst (state.byInstructor s)))"
    by (simp only: k perm_instructor_view[OF assms(1)])
  also have "\<dots> = mset (map instructor_view (instructorStats s))"
    by (simp add: run_instructorStats[OF assms(2)] multiset.map_comp o_def)
  finally show ?thesis .
qed


lemma sort_key_sorted_desc:
  "sorted (map (\<lambda>e. - parseFloat (f e)) (sort_key (\<lambda>e. - parseFloat (f e)) xs))"
  by (rule sorted_sort_key)

lemma map_neg_eq:
  fixes f :: "'a \<Rightarrow> rat"
  assumes "map (\<lambda>e. - f e) xs' = map (\<lambda>e. - f e) xs"
  shows "map f xs' = map f xs"
proof -
  from assms have "map uminus (map (\<lambda>e. - f e) xs') = map uminus (map (\<lambda>e. - f e) xs)"
    by (rule arg_cong)
  then show ?thesis by (simp add: o_def)
qed

lemma perm_key_sequence:
  fixes K :: "'a \<Rightarrow> rat" and view :: "'a \<Rightarrow> 'v" and g :: "'v \<Rightarrow> rat"
  assumes "mset (map view (sort_key K xs')) = mset (map view (sort_key K xs))"
    and "\<And>e. K e = g (view e)"
  shows "map K (sort_key K xs') = map K (sort_key K xs)"
proof -
  have "map K ys = map g (map view ys)" for ys
    by (simp add: assms(2))
  then have "mset (map K (sort_key K xs')) = mset (map K (sort_key K xs))"
    using assms(1) by (metis mset_map)
  then show ?thesis
    by (intro sorted_mset_unique sorted_sort_key)
qed

text \<open>
  C6, as the code has it. For a permutation of an input on which a report is returned, a
  report is returned with the same \<open>summary\<close>, \<open>byDay\<close>, \<open>byHour\<close> and \<open>dailyTrend\<close>.
  Its \<open>byType\<close> has entries with the same name, \<open>classes\<close>, \<open>totalBooked\<close>,
  \<open>totalCapacity\<close>, \<open>avgAttendance\<close>, \<open>attendanceRate\<close> and \<open>uniqueParticipants\<close> and
  with the same per-session percentages in \<open>bookings\<close> as a multiset; its
  \<open>byInstructor\<close> has entries with the same name, \<open>classes\<close>, \<open>totalBooked\<close>,
  \<open>totalCapacity\<close>, \<open>avgAttendance\<close> and \<open>attendanceRate\<close>; both lists show the same
  sequence of attendance rates. What can change is the relative order of entries of equal
  attendance rate, the order of the percentages inside \<open>bookings\<close>, the
  \<open>avgBookingRate\<close> of a \<open>byType\<close> entry (the percentages are added in input order and
  binary64 addition is not associative), and the \<open>color\<close> and \<open>imagekey\<close> of an entry,
  which are those of the first session or staff member met.
\<close>

theorem permutation_invariant_up_to_order:
  assumes "mset ws' = mset ws" and "processAnalytics Date ws = Inr r"
  shows "\<exists>r'. processAnalytics Date ws' = Inr r'
           \<and> summary r' = summary r
           \<and> byDay r' = byDay r
           \<and> report.byHour r' = report.byHour r
           \<and> dailyTrend r' = dailyTrend r
           \<and> mset (map type_view (report.byType r')) = mset (map type_view (report.byType r))
           \<and> map (\<lambda>e. parseFloat (typeStat.attendanceRate e)) (report.byType r')
               = map (\<lambda>e. parseFloat (typeStat.attendanceRate e)) (report.byType r)
           \<and> mset (map instructor_view (report.byInstructor r'))
               = mset (map instructor_view (report.byInstructor r))
           \<and> map (\<lambda>e. parseFloat (instructorStat.attendanceRate e)) (report.byInstructor r')
               = map (\<lambda>e. parseFloat (instructorStat.attendanceRate e)) (report.byInstructor r)"
proof -
  from assms(2) obtain s where s: "run Date ws = Inr s" "r = report_of s"
    by (auto simp: processAnalytics_Inr)
  have "list_all (valid Date) ws" by (rule run_valid[OF s(1)])
  then have "list_all (valid Date) ws'"
    using mset_eq_setD[OF assms(1)] by (simp add: list_all_iff)
  then obtain s' where s': "run Date ws' = Inr s'"
    using valid_run by blast
  note p = assms(1) s(1) s'
  have r': "processAnalytics Date ws' = Inr (report_of s')"
    by (simp add: processAnalytics_Inr s')
  have c1: "summary (report_of s') = summary r"
    by (simp add: s(2) report_of_def perm_summary[OF p])
  have c2: "byDay (report_of s') = byDay r"
    by (simp add: s(2) report_of_def run_dayStats[OF s(1)] run_dayStats[OF s']
          perm_day_stat[OF assms(1)])
  have c3: "report.byHour (report_of s') = report.byHour r"
    by (simp add: s(2) report_of_def run_hourStats[OF s(1)] run_hourStats[OF s']
          perm_hour_stat[OF assms(1)])
  have c4: "dailyTrend (report_of s') = dailyTrend r"
    by (simp add: s(2) report_of_def perm_dailyTrend[OF p])
  have c5: "mset (map type_view (report.byType (report_of s')))
              = mset (map type_view (report.byType r))"
    using perm_typeStats[OF p] by (simp add: s(2) report_of_def)
  have c7: "mset (map instructor_view (report.byInstructor (report_of s')))
              = mset (map instructor_view (report.byInstructor r))"
    using perm_instructorStats[OF p] by (simp add: s(2) report_of_def)
  have "map (\<lambda>e. - parseFloat (typeStat.attendanceRate e)) (typeStats s')
          = map (\<lambda>e. - parseFloat (typeStat.attendanceRate e)) (typeStats s)"
    unfolding typeStats_def
    by (rule perm_key_sequence[where view = type_view
            and g = "\<lambda>v. - parseFloat (fst (snd (snd (snd (snd (snd (snd v)))))))"])
       (use perm_typeStats[OF p] in \<open>simp_all add: typeStats_def type_view_def\<close>)
  then have "map (\<lambda>e. parseFloat (typeStat.attendanceRate e)) (typeStats s')
          = map (\<lambda>e. parseFloat (typeStat.attendanceRate e)) (typeStats s)"
    by (rule map_neg_eq)
  then have c6: "map (\<lambda>e. parseFloat (typeStat.attendanceRate e)) (report.byType (report_of s'))
              = map (\<lambda>e. parseFloat (typeStat.attendanceRate e)) (report.byType r)"
    by (simp add: s(2) report_of_def)
  have "map (\<lambda>e. - parseFloat (instructorStat.attendanceRate e)) (instructorStats s')
          = map (\<lambda>e. - parseFloat (instructorStat.attendanceRate e)) (instructorStats s)"
    unfolding instructorStats_def
    by (rule perm_key_sequence[where view = instructor_view
            and g = "\<lambda>v. - parseFloat (snd (snd (snd (snd (snd v)))))"])
       (use perm_instructorStats[OF p] in \<open>simp_all add: instructorStats_def instructor_view_def\<close>)
  then have "map (\<lambda>e. parseFloat (instructorStat.attendanceRate e)) (instructorStats s')
          = map (\<lambda>e. parseFloat (instructorStat.attendanceRate e)) (instructorStats s)"
    by (rule map_neg_eq)
  then have c8: "map (\<lambda>e. parseFloat (instructorStat.attendanceRate e))
                   (report.byInstructor (report_of s'))
              = map (\<lambda>e. parseFloat (instructorStat.attendanceRate e)) (report.byInstructor r)"
    by (simp add: s(2) report_of_def)
  from r' c1 c2 c3 c4 c5 c6 c7 c8 show ?thesis
    by (intro exI[of _ "report_of s'"] conjI)
qed

theorem permutation_invariant_up_to_order_witness:
  "\<exists>r r'. mset (rev ex_rates) = mset ex_rates
     \<and> processAnalytics localDate ex_rates = Inr r
     \<and> processAnalytics localDate (rev ex_rates) = Inr r'
     \<and> summary r' = summary r
     \<and> byDay r' = byDay r
     \<and> report.byHour r' = report.byHour r
     \<and> dailyTrend r' = dailyTrend r
     \<and> mset (map type_view (report.byType r')) = mset (map type_view (report.byType r))
     \<and> map (\<lambda>e. parseFloat (typeStat.attendanceRate e)) (report.byType r')
         = map (\<lambda>e. parseFloat (typeStat.attendanceRate e)) (report.byType r)"
proof -
  obtain r where r: "processAnalytics localDate ex_rates = Inr r"
    using processAnalytics_valid[OF ex_valid(1)] by blast
  have m: "mset (rev ex_rates) = mset ex_rates" by simp
  from permutation_invariant_up_to_order[OF m r] obtain r' where
    "processAnalytics localDate (rev ex_rates) = Inr r'"
    "summary r' = summary r" "byDay r' = byDay r" "report.byHour r' = report.byHour r"
    "dailyTrend r' = dailyTrend r"
    "mset (map type_view (report.byType r')) = mset (map type_view (report.byType r))"
    "map (\<lambda>e. parseFloat (typeStat.attendanceRate e)) (report.byType r')
         = map (\<lambda>e. parseFloat (typeStat.attendanceRate e)) (report.byType r)"
    by (elim exE conjE)
  with m r show ?thesis
    by (intro exI[of _ r] exI[of _ r'] conjI)
qed

text \<open>
  The average booking rate depends on the order of the input: three sessions of one type
  with capacities 30, 16 and 6 and one booking each give \<open>"8.8"\<close>, and \<open>"8.7"\<close> when the
  last two are exchanged.
\<close>

lemma summation_order_changes_avgBookingRate:
  "mset ex_sum_order' = mset ex_sum_order
   \<and> \<not> isl (processAnalytics localDate ex_sum_order)
   \<and> \<not> isl (processAnalytics localDate ex_sum_order')
   \<and> map avgBookingRate (report.byType (projr (processAnalytics localDate ex_sum_order)))
       = [Text ''8.8'']
   \<and> map avgBookingRate (report.byType (projr (processAnalytics localDate ex_sum_order')))
       = [Text ''8.7'']"
proof (intro conjI)
  show "mset ex_sum_order' = mset ex_sum_order"
    by (simp add: ex_sum_order_def ex_sum_order'_def)
  show "\<not> isl (processAnalytics localDate ex_sum_order)"
    by (simp add: ex_sum_order_def eval_defs)
  show "\<not> isl (processAnalytics localDate ex_sum_order')"
    by (simp add: ex_sum_order'_def eval_defs)
  show "map avgBookingRate (report.byType (projr (processAnalytics localDate ex_sum_order)))
       = [Text ''8.8'']"
    by (simp add: ex_sum_order_def eval_defs)
  show "map avgBookingRate (report.byType (projr (processAnalytics localDate ex_sum_order')))
       = [Text ''8.7'']"
    by (simp add: ex_sum_order'_def eval_defs)
qed

text \<open>
  C6, as the specification states it, fails: every \<open>byType\<close> entry carries the list
  \<open>bookings\<close> of the per-session percentages in input order, so reversing two sessions of
  one type (one entry, no tie) changes that list.
\<close>

theorem permutation_reorders_bookings:
  "mset (rev ex_rates) = mset ex_rates
   \<and> \<not> isl (processAnalytics localDate ex_rates)
   \<and> \<not> isl (processAnalytics localDate (rev ex_rates))
   \<and> map typeBucket.bookings (report.byType (projr (processAnalytics localDate ex_rates)))
       = [[100, 0]]
   \<and> map typeBucket.bookings
         (report.byType (projr (processAnalytics localDate (rev ex_rates))))
       = [[0, 100]]"
proof (intro conjI)
  show "mset (rev ex_rates) = mset ex_rates" by simp
  show "\<not> isl (processAnalytics localDate ex_rates)"
    by (simp add: ex_rates_def eval_defs)
  show "\<not> isl (processAnalytics localDate (rev ex_rates))"
    by (simp add: ex_rates_def eval_defs)
  show "map typeBucket.bookings (report.byType (projr (processAnalytics localDate ex_rates)))
       = [[100, 0]]"
    by (simp add: ex_rates_def eval_defs)
  show "map typeBucket.bookings
         (report.byType (projr (processAnalytics localDate (rev ex_rates))))
       = [[0, 100]]"
    by (simp add: ex_rates_def eval_defs)
qed

end
